theory Spec2Isabelle
  imports Main "HOL-Library.Word" "HOL-Library.Sublist"
begin

section \<open>JavaScript strings and values\<close>

text \<open>
  A JavaScript string is a sequence of UTF-16 code units: \<open>length\<close> counts code units
  and \<open>substring\<close> cuts between them. The string constants of \<open>webr-service.js\<close> are
  Japanese, so they are given below as their code units; ASCII text is written with
  \<open>ascii\<close>.
\<close>

type_synonym jchar = "16 word"
type_synonym jstring = "jchar list"

definition ascii :: "string \<Rightarrow> jstring" where
  "ascii s = map (\<lambda>c. of_nat (of_char c)) s"

text \<open>\<open>Array.prototype.join\<close> on elements that are already strings.\<close>

fun join :: "jstring \<Rightarrow> jstring list \<Rightarrow> jstring" where
  "join sep [] = []"
| "join sep [x] = x"
| "join sep (x # y # ys) = x @ sep @ join sep (y # ys)"

text \<open>
  \<open>String.prototype.trim\<close> removes WhiteSpace and LineTerminator code units from both
  ends (ECMA-262: TAB, VT, FF, SP, NBSP, ZWNBSP, the Space_Separator category, LF, CR,
  LS, PS).
\<close>

definition is_white_space :: "jchar \<Rightarrow> bool" where
  "is_white_space c \<longleftrightarrow>
     c \<in> {0x0009, 0x000A, 0x000B, 0x000C, 0x000D, 0x0020, 0x00A0, 0x1680,
          0x2000, 0x2001, 0x2002, 0x2003, 0x2004, 0x2005, 0x2006, 0x2007, 0x2008,
          0x2009, 0x200A, 0x2028, 0x2029, 0x202F, 0x205F, 0x3000, 0xFEFF}"

definition trim :: "jstring \<Rightarrow> jstring" where
  "trim s = rev (dropWhile is_white_space (rev (dropWhile is_white_space s)))"

text \<open>
  The values the interpreter hands back are untyped. Numbers are IEEE doubles; their
  type is left as the parameter \<open>'n\<close>, and what the platform does with them
  (\<open>Number::toString\<close>, truthiness, subtraction, \<open>Math.round\<close>) is a field of the
  platform record below, so that nothing is assumed about floating-point arithmetic.
\<close>

datatype 'n jsval =
    JUndefined
  | JNull
  | JBool bool
  | JNum 'n
  | JStr jstring
  | JArr "'n jsval list"
  | JObj "(jstring \<times> 'n jsval) list"

text \<open>
  An \<open>Error\<close> object, as \<open>new Error(...)\<close> and the platform's TypeError create it and as
  \<open>formatError\<close> documents its parameter: its \<open>message\<close> property is a string or is
  missing. What the service itself throws is such an object. What a \<open>catch\<close> clause
  binds is any value, a \<open>jsval\<close>; \<open>Error_object\<close> is the Error as a value and
  \<open>message_value\<close> what reading its \<open>message\<close> gives.
\<close>

record js_error =
  message :: "jstring option"

datatype 'a outcome = Returned 'a | Threw js_error

definition message_value :: "js_error \<Rightarrow> 'n jsval" where
  "message_value e = (case message e of Some m \<Rightarrow> JStr m | None \<Rightarrow> JUndefined)"

definition Error_object :: "js_error \<Rightarrow> 'n jsval" where
  "Error_object e =
     JObj (case message e of
             Some m \<Rightarrow> [(ascii ''message'', JStr m)]
           | None \<Rightarrow> [])"

subsection \<open>The interpreter adapter and the platform\<close>

type_synonym image = nat

record capture_options =
  withAutoprint :: bool
  captureStreams :: bool
  captureConditions :: bool
  captureGraphics :: "nat \<times> nat"

record 'n raw_result =
  raw_output :: "'n jsval list option"
  raw_images :: "image list option"

datatype 'n capture_outcome = Resolves "'n raw_result" | Rejects "'n jsval"

type_synonym adapter_call = "jstring \<times> capture_options option"

text \<open>
  Everything \<open>webr-service.js\<close> takes from outside: the built-ins whose results depend on
  doubles or on the engine's serialiser, the clock, and the WebR engine. The engine keeps
  its R session between calls, so \<open>engine_captureR\<close> sees the calls made so far.
  \<open>JSON_stringify\<close> is \<open>JSON.stringify(v, null, 2)\<close> and \<open>JSON_parse\<close> is
  \<open>JSON.parse\<close>; \<open>None\<close> means that the built-in throws.
  \<open>number_minus\<close> is the subtraction of doubles and \<open>Math_round\<close> is \<open>Math.round\<close>; the
  clock readings of \<open>performance.now()\<close> are numbers.
  \<open>property_read_error v k\<close> is the message of the TypeError raised by reading the
  property \<open>k\<close> of \<open>v\<close>, which is \<open>null\<close> or \<open>undefined\<close>, and
  \<open>not_a_function_error\<close> that of the TypeError raised by calling \<open>message.replace\<close> on
  a message that has no such method. The engine's initialisation and its calls throw any
  value.
\<close>

record 'n platform =
  number_to_string :: "'n \<Rightarrow> jstring"
  number_truthy :: "'n \<Rightarrow> bool"
  JSON_stringify :: "'n jsval \<Rightarrow> jstring option"
  JSON_parse :: "jstring \<Rightarrow> 'n jsval option"
  number_minus :: "'n \<Rightarrow> 'n \<Rightarrow> 'n"
  Math_round :: "'n \<Rightarrow> 'n"
  property_read_error :: "'n jsval \<Rightarrow> jstring \<Rightarrow> jstring"
  not_a_function_error :: jstring
  performance_clock :: "nat \<Rightarrow> 'n"
  engine_init :: "'n jsval option"
  engine_new_shelter :: "'n jsval option"
  engine_captureR :: "adapter_call list \<Rightarrow> jstring \<Rightarrow> capture_options option \<Rightarrow> 'n capture_outcome"

text \<open>The part of the outside world that changes: how often the clock was read and
  which calls the adapter has received.\<close>

record world =
  ticks :: nat
  calls :: "adapter_call list"

definition performance_now :: "'n platform \<Rightarrow> world \<Rightarrow> 'n \<times> world" where
  "performance_now P w = (performance_clock P (ticks w), w\<lparr>ticks := Suc (ticks w)\<rparr>)"

subsection \<open>Conversions of the language\<close>

text \<open>\<open>ToBoolean\<close>.\<close>

fun truthy :: "'n platform \<Rightarrow> 'n jsval \<Rightarrow> bool" where
  "truthy P JUndefined = False"
| "truthy P JNull = False"
| "truthy P (JBool b) = b"
| "truthy P (JNum n) = number_truthy P n"
| "truthy P (JStr s) = (s \<noteq> [])"
| "truthy P (JArr xs) = True"
| "truthy P (JObj fs) = True"

text \<open>\<open>String(v)\<close> and template-literal interpolation. An array joins its elements with
  a comma, \<open>undefined\<close> and \<open>null\<close> elements giving the empty string; a plain object
  gives \<open>[object Object]\<close>.\<close>

fun ToString :: "'n platform \<Rightarrow> 'n jsval \<Rightarrow> jstring" where
  "ToString P JUndefined = ascii ''undefined''"
| "ToString P JNull = ascii ''null''"
| "ToString P (JBool b) = (if b then ascii ''true'' else ascii ''false'')"
| "ToString P (JNum n) = number_to_string P n"
| "ToString P (JStr s) = s"
| "ToString P (JArr xs) =
     join (ascii '','') (map (\<lambda>x. if x = JUndefined \<or> x = JNull then [] else ToString P x) xs)"
| "ToString P (JObj fs) = ascii ''[object Object]''"

text \<open>Property read \<open>item.key\<close>: \<open>undefined\<close> where the property is missing; an array
  has neither a \<open>type\<close> nor a \<open>data\<close> property.\<close>

fun get_prop :: "'n jsval \<Rightarrow> jstring \<Rightarrow> 'n jsval" where
  "get_prop (JObj fs) k = (case map_of fs k of Some v \<Rightarrow> v | None \<Rightarrow> JUndefined)"
| "get_prop v k = JUndefined"

fun is_number :: "'n jsval \<Rightarrow> bool" where
  "is_number (JNum n) = True"
| "is_number v = False"

fun is_string :: "'n jsval \<Rightarrow> bool" where
  "is_string (JStr s) = True"
| "is_string v = False"

section \<open>The service: \<open>webr-service.js\<close>\<close>

subsection \<open>String constants of the source\<close>

definition not_initialized_message :: jstring where
  "not_initialized_message =
     ascii ''WebR'' @ [0x304C, 0x521D, 0x671F, 0x5316, 0x3055, 0x308C, 0x3066, 0x3044,
                       0x307E, 0x305B, 0x3093]"

definition init_failed_prefix :: jstring where
  "init_failed_prefix =
     ascii ''WebR'' @ [0x521D, 0x671F, 0x5316, 0x306B, 0x5931, 0x6557, 0x3057, 0x307E,
                       0x3057, 0x305F] @ ascii '': ''"

definition no_code_message :: jstring where
  "no_code_message =
     [0x30B3, 0x30FC, 0x30C9, 0x304C, 0x5165, 0x529B, 0x3055, 0x308C, 0x3066, 0x3044,
      0x307E, 0x305B, 0x3093]"

definition stderr_label :: jstring where
  "stderr_label = [0x30A8, 0x30E9, 0x30FC] @ ascii '': ''"

definition warning_label :: jstring where
  "warning_label = [0x8B66, 0x544A] @ ascii '': ''"

definition message_label :: jstring where
  "message_label = [0x30E1, 0x30C3, 0x30BB, 0x30FC, 0x30B8] @ ascii '': ''"

definition fallback_message :: jstring where
  "fallback_message =
     [0x30B3, 0x30FC, 0x30C9, 0x306E, 0x5B9F, 0x884C, 0x4E2D, 0x306B, 0x30A8, 0x30E9,
      0x30FC, 0x304C, 0x767A, 0x751F, 0x3057, 0x307E, 0x3057, 0x305F]"

definition omission_suffix :: jstring where
  "omission_suffix =
     [0x000A, 0x000A] @ ascii ''... ('' @
     [0x51FA, 0x529B, 0x304C, 0x9577, 0x3059, 0x304E, 0x308B, 0x305F, 0x3081, 0x7701,
      0x7565, 0x3055, 0x308C, 0x307E, 0x3057, 0x305F] @ ascii '')''"

definition setup_code :: jstring where
  "setup_code =
     [0x000A] @ ascii ''                options(width = 80)'' @
     [0x000A] @ ascii ''                options(digits = 7)'' @
     [0x000A] @ ascii ''                # '' @
       [0x65E5, 0x672C, 0x8A9E, 0x5BFE, 0x5FDC, 0x306E, 0x8A2D, 0x5B9A] @
     [0x000A] @ ascii ''                Sys.setlocale('' @ [0x0022] @ ascii ''LC_ALL'' @
       [0x0022] @ ascii '', '' @ [0x0022] @ ascii ''C'' @ [0x0022] @ ascii '')'' @
     [0x000A] @ ascii ''            ''"

subsection \<open>State of a \<open>WebRService\<close>\<close>

text \<open>The configuration: a length in code units and a size in pixels, natural numbers.\<close>

record config_options =
  maxOutputLength :: nat
  plotWidth :: nat
  plotHeight :: nat

text \<open>\<open>webR\<close>, \<open>shelter\<close> and \<open>currentExecution\<close> hold a handle or \<open>null\<close>; only
  whether the handle is there matters here.\<close>

record service =
  webR :: bool
  shelter :: bool
  ready :: bool
  config :: config_options
  currentExecution :: bool

text \<open>The constructor spreads the caller's options over the defaults.\<close>

definition constructor :: "nat option \<Rightarrow> nat option \<Rightarrow> nat option \<Rightarrow> service" where
  "constructor maxLen width height =
     \<lparr>webR = False, shelter = False, ready = False,
      config = \<lparr>maxOutputLength = (case maxLen of Some n \<Rightarrow> n | None \<Rightarrow> 10000),
                plotWidth = (case width of Some n \<Rightarrow> n | None \<Rightarrow> 800),
                plotHeight = (case height of Some n \<Rightarrow> n | None \<Rightarrow> 600)\<rparr>,
      currentExecution = False\<rparr>"

text \<open>\<open>this.shelter.captureR(code, options)\<close>: with a shelter the engine is called and the
  call is recorded; on \<open>null\<close> the property read throws a TypeError, inside the \<open>try\<close>
  of the caller.\<close>

definition shelter_captureR ::
  "'n platform \<Rightarrow> service \<Rightarrow> jstring \<Rightarrow> capture_options option \<Rightarrow> world
     \<Rightarrow> 'n capture_outcome \<times> world" where
  "shelter_captureR P this code opts w =
     (if shelter this
      then (engine_captureR P (calls w) code opts, w\<lparr>calls := calls w @ [(code, opts)]\<rparr>)
      else (Rejects (Error_object
                \<lparr>message = Some (property_read_error P JNull (ascii ''captureR''))\<rparr>), w))"

text \<open>\<open>setupEnvironment\<close> swallows whatever the call throws.\<close>

definition setupEnvironment :: "'n platform \<Rightarrow> service \<Rightarrow> world \<Rightarrow> world" where
  "setupEnvironment P this w = snd (shelter_captureR P this setup_code None w)"

text \<open>The \<open>catch\<close> clause of \<open>initialize\<close>: \<open>ready\<close> is cleared, then the new Error is
  built from \<open>error.message\<close>, a read that itself throws on \<open>null\<close> and \<open>undefined\<close>.\<close>

definition initialize_failed :: "'n platform \<Rightarrow> 'n jsval \<Rightarrow> js_error" where
  "initialize_failed P error =
     (if error = JNull \<or> error = JUndefined
      then \<lparr>message = Some (property_read_error P error (ascii ''message''))\<rparr>
      else \<lparr>message = Some (init_failed_prefix @
                              ToString P (get_prop error (ascii ''message'')))\<rparr>)"

definition initialize :: "'n platform \<Rightarrow> service \<Rightarrow> world \<Rightarrow> unit outcome \<times> service \<times> world" where
  "initialize P this w =
     (let failed = (\<lambda>e this'. (Threw (initialize_failed P e), this'\<lparr>ready := False\<rparr>, w))
      in case engine_init P of
           Some e \<Rightarrow> failed e (this\<lparr>webR := True\<rparr>)
         | None \<Rightarrow>
            (case engine_new_shelter P of
               Some e \<Rightarrow> failed e (this\<lparr>webR := True\<rparr>)
             | None \<Rightarrow>
                (let this1 = this\<lparr>webR := True, shelter := True\<rparr>
                 in (Returned (), this1\<lparr>ready := True\<rparr>, setupEnvironment P this1 w))))"

definition cancelExecution :: "service \<Rightarrow> service" where
  "cancelExecution this = (if currentExecution this then this\<lparr>currentExecution := False\<rparr> else this)"

text \<open>\<open>destroy\<close>: the shelter's own \<open>destroy\<close> is asynchronous and its rejection is only
  logged.\<close>

definition destroy :: "service \<Rightarrow> service" where
  "destroy this = (cancelExecution this)\<lparr>shelter := False, webR := False, ready := False\<rparr>"

subsection \<open>\<open>formatArray\<close> and \<open>formatOutput\<close>\<close>

definition formatArray :: "'n platform \<Rightarrow> 'n jsval list \<Rightarrow> jstring" where
  "formatArray P arr =
     (if length arr = 0 then ascii ''[]''
      else if list_all is_number arr
        then ascii ''['' @ join (ascii '', '') (map (ToString P) arr) @ ascii '']''
      else if list_all is_string arr
        then join [0x000A] (map (ToString P) arr)
      else join [0x000A] (map (ToString P) arr))"

text \<open>The function mapped over the output array. A value returned to \<open>map\<close> that is not
  a string is turned into one by \<open>join\<close>; it is never \<open>undefined\<close> or \<open>null\<close> there,
  since \<open>item.data\<close> is returned only when it is truthy.\<close>

definition formatItem :: "'n platform \<Rightarrow> 'n jsval \<Rightarrow> jstring" where
  "formatItem P item =
     (case item of
        JStr s \<Rightarrow> s
      | JArr xs \<Rightarrow> formatArray P xs
      | JObj fs \<Rightarrow>
          (let ty = get_prop item (ascii ''type''); data = get_prop item (ascii ''data'')
           in if ty = JStr (ascii ''stdout'') \<and> truthy P data then ToString P data
              else if ty = JStr (ascii ''stderr'') \<and> truthy P data
                then stderr_label @ ToString P data
              else if ty = JStr (ascii ''warning'') \<and> truthy P data
                then warning_label @ ToString P data
              else if ty = JStr (ascii ''message'') \<and> truthy P data
                then message_label @ ToString P data
              else (case JSON_stringify P item of
                      Some s \<Rightarrow> s
                    | None \<Rightarrow> ToString P item))
      | _ \<Rightarrow> ToString P item)"

definition formatOutput :: "'n platform \<Rightarrow> 'n jsval list option \<Rightarrow> jstring" where
  "formatOutput P output =
     (case output of
        None \<Rightarrow> []
      | Some items \<Rightarrow>
          if length items = 0 then [] else join [0x000A] (map (formatItem P) items))"

subsection \<open>\<open>truncateOutput\<close>\<close>

definition truncateOutput :: "service \<Rightarrow> jstring \<Rightarrow> jstring" where
  "truncateOutput this output =
     (if length output \<le> maxOutputLength (config this) then output
      else take (maxOutputLength (config this)) output @ omission_suffix)"

subsection \<open>\<open>formatError\<close>\<close>

text \<open>
  The keys of \<open>errorTranslations\<close> are compiled with \<open>new RegExp(pattern, 'i')\<close>. They
  use literal characters and the greedy \<open>.*\<close> only, so a compiled pattern is a list of
  these two atoms. With the \<open>i\<close> flag two code units match when their canonical forms
  agree; every pattern character is ASCII, and a code unit from 128 on never
  canonicalises to an ASCII one, so the canonical form only has to fold \<open>a\<close>..\<open>z\<close>.
  The dot matches everything but the four line terminators.
\<close>

datatype atom = Lit jchar | DotStar

fun RegExp :: "string \<Rightarrow> atom list" where
  "RegExp [] = []"
| "RegExp [c] = [Lit (of_nat (of_char c))]"
| "RegExp (c # d # r) =
     (if c = CHR ''.'' \<and> d = CHR ''*'' then DotStar # RegExp r
      else Lit (of_nat (of_char c)) # RegExp (d # r))"

definition canonicalize :: "jchar \<Rightarrow> jchar" where
  "canonicalize c = (if 0x0061 \<le> c \<and> c \<le> 0x007A then c - 0x0020 else c)"

definition is_line_terminator :: "jchar \<Rightarrow> bool" where
  "is_line_terminator c \<longleftrightarrow> c \<in> {0x000A, 0x000D, 0x2028, 0x2029}"

text \<open>The backtracking matcher at one position: the length of the match, the greedy
  \<open>.*\<close> trying the longest extent first.\<close>

fun match_here :: "atom list \<Rightarrow> jstring \<Rightarrow> nat option" where
  "match_here [] s = Some 0"
| "match_here (Lit c # r) [] = None"
| "match_here (Lit c # r) (x # xs) =
     (if canonicalize x = canonicalize c then map_option Suc (match_here r xs) else None)"
| "match_here (DotStar # r) [] = match_here r []"
| "match_here (DotStar # r) (x # xs) =
     (if is_line_terminator x then match_here r (x # xs)
      else case match_here (DotStar # r) xs of
             Some n \<Rightarrow> Some (Suc n)
           | None \<Rightarrow> match_here r (x # xs))"

text \<open>\<open>RegExp.prototype.exec\<close> without the \<open>g\<close> flag: the leftmost position with a
  match, as (index, length).\<close>

fun regex_exec :: "atom list \<Rightarrow> jstring \<Rightarrow> (nat \<times> nat) option" where
  "regex_exec p [] = (case match_here p [] of Some n \<Rightarrow> Some (0, n) | None \<Rightarrow> None)"
| "regex_exec p (x # xs) =
     (case match_here p (x # xs) of
        Some n \<Rightarrow> Some (0, n)
      | None \<Rightarrow> map_option (\<lambda>(i, n). (Suc i, n)) (regex_exec p xs))"

definition regex_test :: "atom list \<Rightarrow> jstring \<Rightarrow> bool" where
  "regex_test p s \<longleftrightarrow> regex_exec p s \<noteq> None"

text \<open>\<open>message.replace(regex, translation)\<close>: only the leftmost match is replaced. No
  translation contains a \<open>$\<close>, so the replacement text is taken as it is.\<close>

definition String_replace :: "jstring \<Rightarrow> atom list \<Rightarrow> jstring \<Rightarrow> jstring" where
  "String_replace s p t =
     (case regex_exec p s of
        None \<Rightarrow> s
      | Some (i, n) \<Rightarrow> take i s @ t @ drop (i + n) s)"

definition errorTranslations :: "(string \<times> jstring) list" where
  "errorTranslations =
     [(''object .* not found'',
         [0x30AA, 0x30D6, 0x30B8, 0x30A7, 0x30AF, 0x30C8, 0x304C, 0x898B, 0x3064, 0x304B,
          0x308A, 0x307E, 0x305B, 0x3093]),
      (''unexpected'', [0x4E88, 0x671F, 0x3057, 0x306A, 0x3044]),
      (''Error in'', [0x30A8, 0x30E9, 0x30FC, 0x003A]),
      (''could not find function'',
         [0x95A2, 0x6570, 0x304C, 0x898B, 0x3064, 0x304B, 0x308A, 0x307E, 0x305B, 0x3093]),
      (''argument is of length zero'',
         [0x5F15, 0x6570, 0x306E, 0x9577, 0x3055, 0x304C, 0x30BC, 0x30ED, 0x3067, 0x3059]),
      (''missing value'', [0x6B20, 0x640D, 0x5024]),
      (''invalid'', [0x7121, 0x52B9, 0x306A]),
      (''incorrect number of dimensions'',
         [0x6B21, 0x5143, 0x6570, 0x304C, 0x6B63, 0x3057, 0x304F, 0x3042, 0x308A, 0x307E,
          0x305B, 0x3093])]"

text \<open>One round of the \<open>for\<close> loop over \<open>Object.entries(errorTranslations)\<close>.\<close>

definition translate_step :: "string \<times> jstring \<Rightarrow> jstring \<Rightarrow> jstring" where
  "translate_step entry msg =
     (case entry of (pattern, translation) \<Rightarrow>
        let regex = RegExp pattern
        in if regex_test regex msg then String_replace msg regex translation else msg)"

definition formatError :: "js_error \<Rightarrow> jstring" where
  "formatError error =
     (case message error of
        Some m \<Rightarrow> if m \<noteq> [] then fold translate_step errorTranslations m else fallback_message
      | None \<Rightarrow> fallback_message)"

text \<open>
  The same code on whatever a \<open>catch\<close> clause hands it. Reading \<open>error.message\<close> throws
  a TypeError when the value is \<open>null\<close> or \<open>undefined\<close>. A message that is a string is
  treated as above, and a missing or falsy one gives the fallback. For a truthy message
  that is not a string, \<open>regex.test\<close> converts it to a string; at the first pattern
  that matches, \<open>message.replace\<close> is not a function and the call throws, and when none
  matches the message is returned as it is.
\<close>

fun translate_nonstring ::
  "'n platform \<Rightarrow> (string \<times> jstring) list \<Rightarrow> 'n jsval \<Rightarrow> 'n jsval outcome" where
  "translate_nonstring P [] msg = Returned msg"
| "translate_nonstring P (entry # rest) msg =
     (if regex_test (RegExp (fst entry)) (ToString P msg)
      then Threw \<lparr>message = Some (not_a_function_error P)\<rparr>
      else translate_nonstring P rest msg)"

definition formatError_caught :: "'n platform \<Rightarrow> 'n jsval \<Rightarrow> 'n jsval outcome" where
  "formatError_caught P error =
     (if error = JNull \<or> error = JUndefined
      then Threw \<lparr>message = Some (property_read_error P error (ascii ''message''))\<rparr>
      else (case get_prop error (ascii ''message'') of
              JStr m \<Rightarrow> Returned (JStr (formatError \<lparr>message = Some m\<rparr>))
            | msg \<Rightarrow>
               if truthy P msg then translate_nonstring P errorTranslations msg
               else Returned (JStr fallback_message)))"

subsection \<open>\<open>executeCode\<close> and \<open>getVariable\<close>\<close>

text \<open>The result object. \<open>error\<close> holds what \<open>formatError\<close> returned, a string unless the
  caught value carried a message of another type; \<open>executionTime\<close> is a number.\<close>

record 'n execution_result =
  success :: bool
  "output" :: "jstring option"
  error :: "'n jsval option"
  images :: "image list option"
  executionTime :: "'n option"

definition capture_opts :: "service \<Rightarrow> capture_options" where
  "capture_opts this =
     \<lparr>withAutoprint = True, captureStreams = True, captureConditions = True,
      captureGraphics = (plotWidth (config this), plotHeight (config this))\<rparr>"

text \<open>\<open>executeCode\<close>. The \<open>finally\<close> clause clears \<open>currentExecution\<close> on every path
  through the \<open>try\<close>, also when \<open>formatError\<close> throws inside the \<open>catch\<close> clause and that
  TypeError leaves the function.\<close>

definition executeCode ::
  "'n platform \<Rightarrow> service \<Rightarrow> jstring \<Rightarrow> world
     \<Rightarrow> 'n execution_result outcome \<times> service \<times> world" where
  "executeCode P this code w =
     (if \<not> ready this then (Threw \<lparr>message = Some not_initialized_message\<rparr>, this, w)
      else if code = [] \<or> trim code = [] then
        (Returned \<lparr>success = False, output = None, error = Some (JStr no_code_message),
                   images = None, executionTime = None\<rparr>, this, w)
      else
        (case performance_now P w of (startTime, w1) \<Rightarrow>
           (case shelter_captureR P (this\<lparr>currentExecution := True\<rparr>) code
                   (Some (capture_opts this)) w1 of
              (Resolves result, w2) \<Rightarrow>
                (case performance_now P w2 of (t, w3) \<Rightarrow>
                   let executionTime = number_minus P t startTime;
                       output = formatOutput P (raw_output result)
                   in (Returned \<lparr>success = True,
                                  output = Some (truncateOutput this output),
                                  error = None,
                                  images = Some (case raw_images result of
                                                   Some imgs \<Rightarrow> imgs | None \<Rightarrow> []),
                                  executionTime = Some (Math_round P executionTime)\<rparr>,
                       this\<lparr>currentExecution := False\<rparr>, w3))
            | (Rejects err, w2) \<Rightarrow>
                (case performance_now P w2 of (t, w3) \<Rightarrow>
                   let executionTime = number_minus P t startTime
                   in (case formatError_caught P err of
                         Returned errorMessage \<Rightarrow>
                           (Returned \<lparr>success = False, output = None,
                                      error = Some errorMessage, images = None,
                                      executionTime = Some (Math_round P executionTime)\<rparr>,
                            this\<lparr>currentExecution := False\<rparr>, w3)
                       | Threw typeError \<Rightarrow>
                           (Threw typeError, this\<lparr>currentExecution := False\<rparr>, w3))))))"

text \<open>\<open>getVariable\<close>: the inner \<open>try\<close> turns a failing \<open>JSON.parse\<close> into the output
  itself, the outer one turns anything thrown into \<open>null\<close>.\<close>

definition getVariable ::
  "'n platform \<Rightarrow> service \<Rightarrow> jstring \<Rightarrow> world \<Rightarrow> 'n jsval outcome \<times> service \<times> world" where
  "getVariable P this variableName w =
     (if \<not> ready this then (Threw \<lparr>message = Some not_initialized_message\<rparr>, this, w)
      else
        (let code = ascii ''jsonlite::toJSON('' @ variableName @ ascii '', auto_unbox = TRUE)''
         in case executeCode P this code w of
              (Returned result, this', w') \<Rightarrow>
                (case output result of
                   Some out \<Rightarrow>
                     if success result \<and> out \<noteq> [] then
                       (case JSON_parse P out of
                          Some v \<Rightarrow> (Returned v, this', w')
                        | None \<Rightarrow> (Returned (JStr out), this', w'))
                     else (Returned JNull, this', w')
                 | None \<Rightarrow> (Returned JNull, this', w'))
            | (Threw e, this', w') \<Rightarrow> (Returned JNull, this', w')))"

section \<open>Captured items as the adapter delivers them\<close>

text \<open>
  The kinds of captured item: a stream or condition item is an object with a \<open>type\<close> tag
  and its text as \<open>data\<close>; plain text is a string; anything else is carried as it is.
  \<open>normalized_line\<close> is the line each kind is expected to give: stdout and plain text
  verbatim, the other three after their label; a value of another kind is rendered by the
  remaining rules of \<open>formatOutput\<close>.
\<close>

datatype 'n captured_item =
    Stdout jstring
  | Stderr jstring
  | Warning jstring
  | Message jstring
  | PlainText jstring
  | Other "'n jsval"

definition tagged :: "string \<Rightarrow> jstring \<Rightarrow> 'n jsval" where
  "tagged ty s = JObj [(ascii ''type'', JStr (ascii ty)), (ascii ''data'', JStr s)]"

fun to_js :: "'n captured_item \<Rightarrow> 'n jsval" where
  "to_js (Stdout s) = tagged ''stdout'' s"
| "to_js (Stderr s) = tagged ''stderr'' s"
| "to_js (Warning s) = tagged ''warning'' s"
| "to_js (Message s) = tagged ''message'' s"
| "to_js (PlainText s) = JStr s"
| "to_js (Other v) = v"

fun has_text :: "'n captured_item \<Rightarrow> bool" where
  "has_text (Stdout s) = (s \<noteq> [])"
| "has_text (Stderr s) = (s \<noteq> [])"
| "has_text (Warning s) = (s \<noteq> [])"
| "has_text (Message s) = (s \<noteq> [])"
| "has_text (PlainText s) = True"
| "has_text (Other v) = True"

fun normalized_line :: "'n platform \<Rightarrow> 'n captured_item \<Rightarrow> jstring" where
  "normalized_line P (Stdout s) = s"
| "normalized_line P (Stderr s) = stderr_label @ s"
| "normalized_line P (Warning s) = warning_label @ s"
| "normalized_line P (Message s) = message_label @ s"
| "normalized_line P (PlainText s) = s"
| "normalized_line P (Other v) = formatItem P v"

section \<open>Properties of the patterns and translations\<close>

text \<open>
  The characters a literal pattern of \<open>errorTranslations\<close> can match are the space and
  the ASCII letters; no translation contains one of them. An entry is literal when its
  pattern compiles to literal atoms only, which holds for every entry after the first.
\<close>

definition plain_char :: "jchar \<Rightarrow> bool" where
  "plain_char c \<longleftrightarrow>
     c = 0x0020 \<or> (0x0041 \<le> c \<and> c \<le> 0x005A) \<or> (0x0061 \<le> c \<and> c \<le> 0x007A)"

definition literal_entry :: "string \<times> jstring \<Rightarrow> bool" where
  "literal_entry e \<longleftrightarrow>
     RegExp (fst e) = map Lit (ascii (fst e)) \<and> fst e \<noteq> []
     \<and> list_all plain_char (ascii (fst e))"

definition foreign_text :: "jstring \<Rightarrow> bool" where
  "foreign_text t \<longleftrightarrow> t \<noteq> [] \<and> list_all (\<lambda>c. \<not> plain_char c) t"

section \<open>A concrete platform\<close>

text \<open>
  A platform to run the service on. Its numbers are integers, on which subtraction is
  exact and \<open>Math.round\<close> is the identity, as they are for doubles below \<open>2^53\<close>; they
  are printed in decimal. The clock advances by 13 ms per reading. \<open>stop()\<close> and reading
  the variable \<open>missing\<close> make the engine throw an Error, \<open>crash()\<close> and reading the
  variable \<open>broken\<close> make it throw \<open>null\<close>, reading the variable \<open>nothing\<close> prints nothing, reading \<open>x\<close> prints a JSON
  array, and any other code prints one line and draws one image. \<open>JSON.stringify\<close> and
  \<open>JSON.parse\<close> are given on the values that occur below.
\<close>

fun decimal :: "nat \<Rightarrow> jstring" where
  "decimal n =
     (if n < 10 then [0x0030 + of_nat n]
      else decimal (n div 10) @ [0x0030 + of_nat (n mod 10)])"

declare decimal.simps [simp del]

definition blank_stdout_json :: jstring where
  "blank_stdout_json =
     ascii ''{'' @ [0x000A] @
     ascii ''  '' @ [0x0022] @ ascii ''type'' @ [0x0022] @ ascii '': '' @
       [0x0022] @ ascii ''stdout'' @ [0x0022] @ ascii '','' @ [0x000A] @
     ascii ''  '' @ [0x0022] @ ascii ''data'' @ [0x0022] @ ascii '': '' @
       [0x0022, 0x0022] @ [0x000A] @
     ascii ''}''"

definition sample_platform :: "int platform" where
  "sample_platform =
     \<lparr>number_to_string = (\<lambda>i. if i < 0 then ascii ''-'' @ decimal (nat (- i))
                                else decimal (nat i)),
      number_truthy = (\<lambda>i. i \<noteq> 0),
      JSON_stringify = (\<lambda>v. if v = tagged ''stdout'' [] then Some blank_stdout_json else None),
      JSON_parse = (\<lambda>s. if s = ascii ''[1,2]'' then Some (JArr [JNum 1, JNum 2]) else None),
      number_minus = (\<lambda>a b. a - b),
      Math_round = (\<lambda>i. i),
      property_read_error = (\<lambda>v k.
         ascii ''Cannot read properties of '' @
         (if v = JNull then ascii ''null'' else ascii ''undefined'') @
         ascii '' (reading '' @ [0x0027] @ k @ [0x0027] @ ascii '')''),
      not_a_function_error = ascii ''message.replace is not a function'',
      performance_clock = (\<lambda>k. 1000 + 13 * int k),
      engine_init = None,
      engine_new_shelter = None,
      engine_captureR = (\<lambda>history code opts.
         if code = ascii ''stop()''
           then Rejects (Error_object
                  \<lparr>message = Some (ascii ''Error in f(): invalid argument'')\<rparr>)
         else if code = ascii ''crash()''
                 \<or> code = ascii ''jsonlite::toJSON(broken, auto_unbox = TRUE)''
           then Rejects JNull
         else if code = ascii ''jsonlite::toJSON(missing, auto_unbox = TRUE)''
           then Rejects (Error_object \<lparr>message = Some (ascii ''object missing not found'')\<rparr>)
         else if code = ascii ''jsonlite::toJSON(nothing, auto_unbox = TRUE)''
           then Resolves \<lparr>raw_output = Some [], raw_images = None\<rparr>
         else if code = ascii ''jsonlite::toJSON(x, auto_unbox = TRUE)''
           then Resolves \<lparr>raw_output = Some [tagged ''stdout'' (ascii ''[1,2]'')],
                          raw_images = None\<rparr>
         else Resolves \<lparr>raw_output = Some [tagged ''stdout'' (ascii ''[1] 2'')],
                        raw_images = Some [7]\<rparr>)\<rparr>"

text \<open>A service after a successful \<open>initialize\<close>, with the given \<open>maxOutputLength\<close>.\<close>

definition fresh_world :: world where
  "fresh_world = \<lparr>ticks = 0, calls = []\<rparr>"

definition sample_service :: "nat option \<Rightarrow> service" where
  "sample_service maxLen =
     fst (snd (initialize sample_platform (constructor maxLen None None) fresh_world))"

definition sample_world :: world where
  "sample_world =
     snd (snd (initialize sample_platform (constructor None None None) fresh_world))"

section \<open>The matcher and \<open>formatError\<close>\<close>

lemma match_here_le: "match_here p s = Some n \<Longrightarrow> n \<le> length s"
  by (induction p s arbitrary: n rule: match_here.induct)
     (auto split: if_splits option.splits)

lemma regex_exec_SomeD:
  "regex_exec p s = Some (i, n) \<Longrightarrow>
     i \<le> length s \<and> match_here p (drop i s) = Some n \<and> (\<forall>k<i. match_here p (drop k s) = None)"
proof (induction s arbitrary: i n)
  case Nil
  then show ?case by (auto split: option.splits)
next
  case (Cons x xs)
  show ?case
  proof (cases "match_here p (x # xs)")
    case (Some n')
    with Cons.prems show ?thesis by simp
  next
    case None
    with Cons.prems obtain i' where i': "regex_exec p xs = Some (i', n)" "i = Suc i'"
      by auto
    from Cons.IH [OF i'(1)] have ih: "i' \<le> length xs" "match_here p (drop i' xs) = Some n"
      "\<forall>k<i'. match_here p (drop k xs) = None" by auto
    have "match_here p (drop k (x # xs)) = None" if "k < i" for k
      using that None ih(3) i'(2) by (cases k) auto
    with ih i'(2) show ?thesis by simp
  qed
qed

lemma regex_exec_found:
  "match_here p (drop k s) = Some n \<Longrightarrow> k \<le> length s \<Longrightarrow> regex_exec p s \<noteq> None"
proof (induction s arbitrary: k)
  case Nil
  then show ?case by simp
next
  case (Cons x xs)
  show ?case
  proof (cases k)
    case 0
    with Cons.prems show ?thesis by simp
  next
    case (Suc k')
    with Cons.prems have "regex_exec p xs \<noteq> None"
      using Cons.IH [of k'] by simp
    then show ?thesis by (auto split: option.splits)
  qed
qed

lemma match_here_literal:
  "match_here (map Lit w) s =
     (if length w \<le> length s \<and> map canonicalize (take (length w) s) = map canonicalize w
      then Some (length w) else None)"
proof (induction w arbitrary: s)
  case Nil
  then show ?case by simp
next
  case (Cons c w)
  then show ?case by (cases s) auto
qed

lemma plain_char_canonicalize:
  assumes "canonicalize x = canonicalize c" and "plain_char c"
  shows "plain_char x"
  using assms unfolding canonicalize_def plain_char_def
  by (auto split: if_splits) unat_arith+

lemma String_replace_decomp:
  assumes "regex_test p s"
  obtains pre mid post where
    "s = pre @ mid @ post"
    "match_here p (mid @ post) = Some (length mid)"
    "\<forall>k<length pre. match_here p (drop k s) = None"
    "String_replace s p t = pre @ t @ post"
proof -
  from assms obtain i n where ex: "regex_exec p s = Some (i, n)"
    by (auto simp: regex_test_def)
  from regex_exec_SomeD [OF ex] have i: "i \<le> length s"
    and m: "match_here p (drop i s) = Some n"
    and l: "\<forall>k<i. match_here p (drop k s) = None" by auto
  from match_here_le [OF m] have n: "n \<le> length s - i" by simp
  let ?pre = "take i s" and ?mid = "take n (drop i s)" and ?post = "drop (i + n) s"
  have dd: "drop n (drop i s) = ?post" by (simp add: add.commute)
  have 1: "s = ?pre @ ?mid @ ?post"
    by (metis append_take_drop_id dd)
  have len: "length ?mid = n" "length ?pre = i" using n i by auto
  have "?mid @ ?post = drop i s"
    by (metis append_take_drop_id dd)
  with m len have 2: "match_here p (?mid @ ?post) = Some (length ?mid)"
    by simp
  have 3: "\<forall>k<length ?pre. match_here p (drop k s) = None" using l len by simp
  have 4: "String_replace s p t = ?pre @ t @ ?post"
    by (simp add: String_replace_def ex)
  from that [OF 1 2 3 4] show thesis .
qed

lemma literal_match_iff:
  "regex_test (map Lit w) s \<longleftrightarrow>
     (\<exists>pre mid post. s = pre @ mid @ post \<and> map canonicalize mid = map canonicalize w)"
proof
  assume "regex_test (map Lit w) s"
  then obtain pre mid post where s: "s = pre @ mid @ post"
    and m: "match_here (map Lit w) (mid @ post) = Some (length mid)"
    by (rule String_replace_decomp)
  from m have "length mid = length w"
    and "map canonicalize (take (length w) (mid @ post)) = map canonicalize w"
    by (auto simp: match_here_literal split: if_splits)
  then have "map canonicalize mid = map canonicalize w" by simp
  with s show "\<exists>pre mid post. s = pre @ mid @ post \<and> map canonicalize mid = map canonicalize w"
    by blast
next
  assume "\<exists>pre mid post. s = pre @ mid @ post \<and> map canonicalize mid = map canonicalize w"
  then obtain pre mid post where s: "s = pre @ mid @ post"
    and c: "map canonicalize mid = map canonicalize w" by blast
  from c have len: "length mid = length w" by (rule map_eq_imp_length_eq)
  have "match_here (map Lit w) (drop (length pre) s) = Some (length w)"
    using c len by (simp add: s match_here_literal)
  then have "regex_exec (map Lit w) s \<noteq> None"
    by (rule regex_exec_found) (simp add: s)
  then show "regex_test (map Lit w) s" by (simp add: regex_test_def)
qed

lemma plain_match:
  assumes "map canonicalize mid = map canonicalize w" and "list_all plain_char w"
  shows "list_all plain_char mid"
proof -
  from assms(1) have len: "length mid = length w" by (rule map_eq_imp_length_eq)
  have "plain_char (mid ! k)" if "k < length mid" for k
  proof -
    from assms(1) have "map canonicalize mid ! k = map canonicalize w ! k" by simp
    with that len have "canonicalize (mid ! k) = canonicalize (w ! k)" by simp
    moreover from assms(2) that len have "plain_char (w ! k)"
      by (simp add: list_all_length)
    ultimately show ?thesis by (rule plain_char_canonicalize)
  qed
  then show ?thesis by (simp add: list_all_length)
qed

lemma disjoint_segments:
  assumes eq: "a @ t @ b = pre @ mid @ post"
    and t: "t \<noteq> []" and mid: "mid \<noteq> []" and disj: "set t \<inter> set mid = {}"
  shows "(\<exists>c. a = pre @ mid @ c \<and> post = c @ t @ b) \<or> (\<exists>c. pre = a @ t @ c \<and> b = c @ mid @ post)"
proof -
  from append_eq_append_conv2 [THEN iffD1, OF eq]
  consider us where "a = pre @ us" "us @ t @ b = mid @ post"
    | us where "a @ us = pre" "t @ b = us @ mid @ post"
    by blast
  then show ?thesis
  proof cases
    case 1
    from append_eq_append_conv2 [THEN iffD1, OF 1(2)]
    consider vs where "us = mid @ vs" "vs @ t @ b = post"
      | vs where "us @ vs = mid" "t @ b = vs @ post"
      by blast
    then show ?thesis
    proof cases
      case 1
      with \<open>a = pre @ us\<close> show ?thesis by auto
    next
      case 2
      show ?thesis
      proof (cases vs)
        case Nil
        with 2 \<open>a = pre @ us\<close> show ?thesis by auto
      next
        case (Cons v vs')
        from 2 Cons have "v \<in> set mid" by auto
        moreover from 2 Cons t have "v \<in> set t" by (cases t) auto
        ultimately show ?thesis using disj by blast
      qed
    qed
  next
    case 2
    from append_eq_append_conv2 [THEN iffD1, OF 2(2)]
    consider vs where "t = us @ vs" "vs @ b = mid @ post"
      | vs where "t @ vs = us" "b = vs @ mid @ post"
      by blast
    then show ?thesis
    proof cases
      case 1
      show ?thesis
      proof (cases vs)
        case Nil
        with 1 \<open>a @ us = pre\<close> show ?thesis by auto
      next
        case (Cons v vs')
        from 1 Cons have "v \<in> set t" by auto
        moreover from 1 Cons mid have "v \<in> set mid" by (cases mid) auto
        ultimately show ?thesis using disj by blast
      qed
    next
      case 2
      with \<open>a @ us = pre\<close> show ?thesis by auto
    qed
  qed
qed

lemma translate_step_eq:
  "translate_step e s =
     (if regex_test (RegExp (fst e)) s then String_replace s (RegExp (fst e)) (snd e) else s)"
  by (cases e) (simp add: translate_step_def)

lemma literal_match_mid:
  assumes "match_here (map Lit w) (mid @ post) = Some (length mid)"
  shows "map canonicalize mid = map canonicalize w"
proof -
  from assms have "length mid = length w"
    and "map canonicalize (take (length w) (mid @ post)) = map canonicalize w"
    by (auto simp: match_here_literal split: if_splits)
  then show ?thesis by simp
qed

lemma literal_occurrence:
  assumes e: "literal_entry e" and t: "foreign_text t"
    and s: "a @ t @ b = pre @ mid @ post"
    and m: "match_here (RegExp (fst e)) (mid @ post) = Some (length mid)"
  shows "(\<exists>c. a = pre @ mid @ c \<and> post = c @ t @ b) \<or> (\<exists>c. pre = a @ t @ c \<and> b = c @ mid @ post)"
proof -
  let ?w = "ascii (fst e)"
  from e have re: "RegExp (fst e) = map Lit ?w" and w: "?w \<noteq> []" "list_all plain_char ?w"
    by (auto simp: literal_entry_def ascii_def)
  from m re have c: "map canonicalize mid = map canonicalize ?w"
    by (simp add: literal_match_mid)
  then have "length mid = length ?w" by (rule map_eq_imp_length_eq)
  with w have mid: "mid \<noteq> []" by auto
  from c w(2) have "list_all plain_char mid" by (rule plain_match)
  with t have "set t \<inter> set mid = {}"
    by (auto simp: foreign_text_def list_all_iff)
  with s t mid show ?thesis
    by (intro disjoint_segments) (auto simp: foreign_text_def)
qed

lemma translate_step_keeps:
  assumes e: "literal_entry e" and t: "foreign_text t"
  shows "\<exists>a' b'. translate_step e (a @ t @ b) = a' @ t @ b'"
proof (cases "regex_test (RegExp (fst e)) (a @ t @ b)")
  case False
  then have "translate_step e (a @ t @ b) = a @ t @ b"
    by (simp add: translate_step_eq)
  then show ?thesis by blast
next
  case True
  then obtain pre mid post where s: "a @ t @ b = pre @ mid @ post"
    and m: "match_here (RegExp (fst e)) (mid @ post) = Some (length mid)"
    and r: "String_replace (a @ t @ b) (RegExp (fst e)) (snd e) = pre @ snd e @ post"
    by (rule String_replace_decomp [where t = "snd e"])
  from True r have step: "translate_step e (a @ t @ b) = pre @ snd e @ post"
    by (simp add: translate_step_eq)
  from literal_occurrence [OF e t s m] show ?thesis
  proof
    assume "\<exists>c. a = pre @ mid @ c \<and> post = c @ t @ b"
    then obtain c where "post = c @ t @ b" by blast
    with step have "translate_step e (a @ t @ b) = (pre @ snd e @ c) @ t @ b" by simp
    then show ?thesis by blast
  next
    assume "\<exists>c. pre = a @ t @ c \<and> b = c @ mid @ post"
    then obtain c where "pre = a @ t @ c" by blast
    with step have "translate_step e (a @ t @ b) = a @ t @ (c @ snd e @ post)" by simp
    then show ?thesis by blast
  qed
qed

lemma fold_translate_keeps:
  assumes "\<forall>e\<in>set tbl. literal_entry e" and "foreign_text t"
  shows "\<exists>a' b'. fold translate_step tbl (a @ t @ b) = a' @ t @ b'"
  using assms(1)
proof (induction tbl arbitrary: a b)
  case Nil
  show ?case by auto
next
  case (Cons e tbl)
  then have "literal_entry e" by simp
  from translate_step_keeps [OF this assms(2)]
  obtain a1 b1 where "translate_step e (a @ t @ b) = a1 @ t @ b1" by blast
  moreover from Cons obtain a' b' where "fold translate_step tbl (a1 @ t @ b1) = a' @ t @ b'"
    by fastforce
  ultimately show ?case by auto
qed

lemma literal_no_new_match:
  assumes e: "literal_entry e" and t: "foreign_text t"
    and new: "regex_test (RegExp (fst e)) (pre @ t @ post)"
  shows "regex_test (RegExp (fst e)) (pre @ mid @ post)"
proof -
  let ?w = "ascii (fst e)"
  from e have re: "RegExp (fst e) = map Lit ?w" by (simp add: literal_entry_def)
  from new obtain p2 m2 q2 where s: "pre @ t @ post = p2 @ m2 @ q2"
    and m: "match_here (RegExp (fst e)) (m2 @ q2) = Some (length m2)"
    by (rule String_replace_decomp)
  from m re have c: "map canonicalize m2 = map canonicalize ?w"
    by (simp add: literal_match_mid)
  from literal_occurrence [OF e t s m]
  have "\<exists>x y. pre @ mid @ post = x @ m2 @ y"
  proof
    assume "\<exists>c. pre = p2 @ m2 @ c \<and> q2 = c @ t @ post"
    then obtain c where "pre = p2 @ m2 @ c" by blast
    then have "pre @ mid @ post = p2 @ m2 @ (c @ mid @ post)" by simp
    then show ?thesis by blast
  next
    assume "\<exists>c. p2 = pre @ t @ c \<and> post = c @ m2 @ q2"
    then obtain c where "post = c @ m2 @ q2" by blast
    then have "pre @ mid @ post = (pre @ mid @ c) @ m2 @ q2" by simp
    then show ?thesis by blast
  qed
  with c show ?thesis unfolding re literal_match_iff by blast
qed

lemma fold_translate_identity:
  "\<forall>e\<in>set tbl. \<not> regex_test (RegExp (fst e)) s \<Longrightarrow> fold translate_step tbl s = s"
  by (induction tbl) (auto simp: translate_step_eq)

lemma table_literal: "\<forall>e\<in>set (tl errorTranslations). literal_entry e"
  by (simp add: errorTranslations_def literal_entry_def ascii_def plain_char_def)

lemma table_foreign: "\<forall>e\<in>set errorTranslations. foreign_text (snd e)"
  by (simp add: errorTranslations_def foreign_text_def plain_char_def)

lemma translate_step_nonempty:
  assumes "s \<noteq> []" and "snd e \<noteq> []"
  shows "translate_step e s \<noteq> []"
proof (cases "regex_test (RegExp (fst e)) s")
  case True
  then obtain pre mid post where
    "String_replace s (RegExp (fst e)) (snd e) = pre @ snd e @ post"
    by (rule String_replace_decomp)
  with True assms(2) show ?thesis by (simp add: translate_step_eq)
next
  case False
  with assms(1) show ?thesis by (simp add: translate_step_eq)
qed

lemma fold_translate_nonempty:
  "\<forall>e\<in>set tbl. snd e \<noteq> [] \<Longrightarrow> s \<noteq> [] \<Longrightarrow> fold translate_step tbl s \<noteq> []"
  by (induction tbl arbitrary: s) (simp_all add: translate_step_nonempty)

lemma formatError_nonempty: "formatError e \<noteq> []"
proof -
  from table_foreign have "\<forall>e\<in>set errorTranslations. snd e \<noteq> []"
    by (simp add: foreign_text_def)
  then show ?thesis
    by (auto simp: formatError_def fallback_message_def fold_translate_nonempty
             split: option.splits)
qed

lemma table_no_dollar: "\<forall>e\<in>set errorTranslations. 0x0024 \<notin> set (snd e)"
  by (simp add: errorTranslations_def)

section \<open>\<open>formatError\<close> on a caught value\<close>

lemma Error_object_props:
  "(Error_object e :: 'n jsval) \<noteq> JNull"
  "(Error_object e :: 'n jsval) \<noteq> JUndefined"
  "get_prop (Error_object e :: 'n jsval) (ascii ''message'') = message_value e"
  by (simp_all add: Error_object_def message_value_def split: option.splits)

lemma formatError_caught_Error:
  assumes "err \<noteq> JNull" and "err \<noteq> JUndefined"
    and "get_prop err (ascii ''message'') = message_value e"
  shows "formatError_caught P err = Returned (JStr (formatError e))"
proof (cases "message e")
  case None
  with assms show ?thesis
    by (simp add: formatError_caught_def message_value_def formatError_def)
next
  case (Some m)
  then have "e = \<lparr>message = Some m\<rparr>" by (cases e) simp
  with assms Some show ?thesis
    by (simp add: formatError_caught_def message_value_def)
qed

lemma formatError_caught_nullish:
  "err = JNull \<or> err = JUndefined \<Longrightarrow>
     formatError_caught P err
       = Threw \<lparr>message = Some (property_read_error P err (ascii ''message''))\<rparr>"
  by (auto simp: formatError_caught_def)

lemma translate_nonstring_Returned:
  "translate_nonstring P tbl msg = Returned x \<Longrightarrow> x = msg"
  by (induction tbl) (auto split: if_splits)

lemma formatError_caught_truthy:
  assumes "formatError_caught P err = Returned x"
  shows "truthy P x"
proof -
  from assms have nn: "err \<noteq> JNull" "err \<noteq> JUndefined"
    by (auto simp: formatError_caught_def)
  show ?thesis
  proof (cases "get_prop err (ascii ''message'')")
    case (JStr m)
    with assms nn show ?thesis
      by (auto simp: formatError_caught_def formatError_nonempty)
  qed (use assms nn in \<open>auto simp: formatError_caught_def fallback_message_def
         split: if_splits dest: translate_nonstring_Returned\<close>)
qed

section \<open>Running code: \<open>executeCode\<close>\<close>

lemma trim_Nil_iff: "trim s = [] \<longleftrightarrow> list_all is_white_space s"
proof -
  let ?d = "dropWhile is_white_space s"
  have "(\<forall>x\<in>set ?d. is_white_space x) \<longleftrightarrow> ?d = []"
  proof
    assume all: "\<forall>x\<in>set ?d. is_white_space x"
    show "?d = []"
    proof (rule ccontr)
      assume ne: "?d \<noteq> []"
      then have "\<not> is_white_space (hd ?d)" by (rule hd_dropWhile)
      moreover from ne have "hd ?d \<in> set ?d" by simp
      ultimately show False using all by blast
    qed
  qed (auto dest: set_dropWhileD)
  then show ?thesis
    by (simp add: trim_def dropWhile_eq_Nil_conv list_all_iff)
qed

lemma executeCode_rejects:
  assumes "ready this" and "shelter this" and "\<not> list_all is_white_space code"
    and "engine_captureR P (calls w) code (Some (capture_opts this)) = Rejects err"
  shows "executeCode P this code w =
           (case formatError_caught P err of
              Returned errorMessage \<Rightarrow>
                (Returned \<lparr>success = False, output = None, error = Some errorMessage,
                           images = None,
                           executionTime =
                             Some (Math_round P
                                    (number_minus P (performance_clock P (Suc (ticks w)))
                                                    (performance_clock P (ticks w))))\<rparr>,
                 this\<lparr>currentExecution := False\<rparr>,
                 \<lparr>ticks = ticks w + 2, calls = calls w @ [(code, Some (capture_opts this))]\<rparr>)
            | Threw typeError \<Rightarrow>
                (Threw typeError, this\<lparr>currentExecution := False\<rparr>,
                 \<lparr>ticks = ticks w + 2, calls = calls w @ [(code, Some (capture_opts this))]\<rparr>))"
proof -
  from assms(3) have nb: "code \<noteq> []" "trim code \<noteq> []"
    by (auto simp: trim_Nil_iff)
  show ?thesis
    using assms(1,2,4) nb
    by (simp add: executeCode_def performance_now_def shelter_captureR_def
          split: outcome.splits)
qed

lemma executeCode_rejects_Error:
  assumes "ready this" and "shelter this" and "\<not> list_all is_white_space code"
    and "engine_captureR P (calls w) code (Some (capture_opts this)) = Rejects err"
    and "err \<noteq> JNull" and "err \<noteq> JUndefined"
    and "get_prop err (ascii ''message'') = message_value e"
  shows "executeCode P this code w =
           (Returned \<lparr>success = False, output = None, error = Some (JStr (formatError e)),
                      images = None,
                      executionTime =
                        Some (Math_round P
                               (number_minus P (performance_clock P (Suc (ticks w)))
                                               (performance_clock P (ticks w))))\<rparr>,
            this\<lparr>currentExecution := False\<rparr>,
            \<lparr>ticks = ticks w + 2, calls = calls w @ [(code, Some (capture_opts this))]\<rparr>)"
  by (simp add: executeCode_rejects [OF assms(1-4)] formatError_caught_Error [OF assms(5-7)])

lemma executeCode_resolves:
  assumes "ready this" and "shelter this" and "\<not> list_all is_white_space code"
    and "engine_captureR P (calls w) code (Some (capture_opts this)) = Resolves res"
  shows "executeCode P this code w =
           (Returned \<lparr>success = True,
                      output = Some (truncateOutput this (formatOutput P (raw_output res))),
                      error = None,
                      images = Some (case raw_images res of Some imgs \<Rightarrow> imgs | None \<Rightarrow> []),
                      executionTime =
                        Some (Math_round P
                               (number_minus P (performance_clock P (Suc (ticks w)))
                                               (performance_clock P (ticks w))))\<rparr>,
            this\<lparr>currentExecution := False\<rparr>,
            \<lparr>ticks = ticks w + 2, calls = calls w @ [(code, Some (capture_opts this))]\<rparr>)"
proof -
  from assms(3) have nb: "code \<noteq> []" "trim code \<noteq> []"
    by (auto simp: trim_Nil_iff)
  show ?thesis
    using assms(1,2,4) nb
    by (simp add: executeCode_def performance_now_def shelter_captureR_def)
qed

lemma executeCode_no_shelter:
  assumes "ready this" and "\<not> shelter this" and "\<not> list_all is_white_space code"
  shows "executeCode P this code w =
           (Returned \<lparr>success = False, output = None,
                      error = Some (JStr (formatError
                                 \<lparr>message = Some (property_read_error P JNull (ascii ''captureR''))\<rparr>)),
                      images = None,
                      executionTime =
                        Some (Math_round P
                               (number_minus P (performance_clock P (Suc (ticks w)))
                                               (performance_clock P (ticks w))))\<rparr>,
            this\<lparr>currentExecution := False\<rparr>,
            \<lparr>ticks = ticks w + 2, calls = calls w\<rparr>)"
proof -
  from assms(3) have nb: "code \<noteq> []" "trim code \<noteq> []"
    by (auto simp: trim_Nil_iff)
  have "formatError_caught P
          (Error_object \<lparr>message = Some (property_read_error P JNull (ascii ''captureR''))\<rparr>)
        = Returned (JStr (formatError
            \<lparr>message = Some (property_read_error P JNull (ascii ''captureR''))\<rparr>))"
    by (rule formatError_caught_Error) (rule Error_object_props)+
  then show ?thesis
    using assms(1,2) nb
    by (simp add: executeCode_def performance_now_def shelter_captureR_def)
qed

lemma executeCode_blank:
  assumes "ready this" and "list_all is_white_space code"
  shows "executeCode P this code w =
           (Returned \<lparr>success = False, output = None, error = Some (JStr no_code_message),
                      images = None, executionTime = None\<rparr>, this, w)"
  using assms by (simp add: executeCode_def trim_Nil_iff)

lemma sample_service_eq:
  "sample_service maxLen =
     \<lparr>webR = True, shelter = True, ready = True,
      config = \<lparr>maxOutputLength = (case maxLen of Some n \<Rightarrow> n | None \<Rightarrow> 10000),
                plotWidth = 800, plotHeight = 600\<rparr>,
      currentExecution = False\<rparr>"
  by (simp add: sample_service_def initialize_def constructor_def sample_platform_def)

lemma sample_world_eq: "sample_world = \<lparr>ticks = 0, calls = [(setup_code, None)]\<rparr>"
  by (simp add: sample_world_def initialize_def constructor_def sample_platform_def
        setupEnvironment_def shelter_captureR_def fresh_world_def)

lemma sample_duration:
  "Math_round sample_platform
     (number_minus sample_platform (performance_clock sample_platform (Suc (ticks sample_world)))
                                   (performance_clock sample_platform (ticks sample_world))) = 13"
  by (simp add: sample_platform_def sample_world_eq)

lemma formatError_sample:
  "formatError \<lparr>message = Some (ascii ''Error in f(): invalid argument'')\<rparr>
   = [0x30A8, 0x30E9, 0x30FC] @ ascii '': f(): '' @ [0x7121, 0x52B9, 0x306A] @ ascii '' argument''"
  by (simp add: formatError_def errorTranslations_def translate_step_def regex_test_def
        String_replace_def ascii_def canonicalize_def is_line_terminator_def)

text \<open>
  Claim C8. While the service is not ready, \<open>executeCode\<close> throws the
  not-initialised error for every code string and returns no result; the state and the
  world are left as they were. A service is not ready when it has just been constructed
  and after \<open>destroy\<close>, and after \<open>initialize\<close> it is ready exactly when \<open>initialize\<close>
  returned without throwing.
\<close>

theorem executeCode_not_ready:
  "(\<not> ready this \<longrightarrow>
      executeCode P this code w = (Threw \<lparr>message = Some not_initialized_message\<rparr>, this, w))
   \<and> \<not> ready (constructor maxLen width height)
   \<and> \<not> ready (destroy this)
   \<and> (ready (fst (snd (initialize P this w))) \<longleftrightarrow> fst (initialize P this w) = Returned ())"
  by (simp add: executeCode_def constructor_def destroy_def initialize_def Let_def
        split: option.splits)

theorem executeCode_not_ready_witness:
  "\<not> ready (constructor None None None)
   \<and> executeCode sample_platform (constructor None None None) (ascii ''1 + 1'') fresh_world
       = (Threw \<lparr>message = Some not_initialized_message\<rparr>, constructor None None None,
          fresh_world)"
  using executeCode_not_ready
          [of "constructor None None None" sample_platform "ascii ''1 + 1''" fresh_world
              None None None]
  by simp

text \<open>
  Claim C6. For a ready service and a code string that is empty or consists of white
  space only, \<open>executeCode\<close> returns the failing result with the no-code message and
  nothing else: no output, no images and no execution time. The world is returned
  unchanged, so the adapter was not called and the clock was not read.
\<close>

theorem executeCode_blank_code:
  assumes "ready this" and "list_all is_white_space code"
  shows "executeCode P this code w =
           (Returned \<lparr>success = False, output = None, error = Some (JStr no_code_message),
                      images = None, executionTime = None\<rparr>, this, w)"
  using assms by (simp add: executeCode_def trim_Nil_iff)

theorem executeCode_blank_code_witness:
  "ready (sample_service None)
   \<and> list_all is_white_space [0x0020, 0x000A, 0x3000]
   \<and> executeCode sample_platform (sample_service None) [0x0020, 0x000A, 0x3000] sample_world
       = (Returned \<lparr>success = False, output = None, error = Some (JStr no_code_message),
                     images = None, executionTime = None\<rparr>, sample_service None, sample_world)"
proof -
  have r: "ready (sample_service None)" by (simp add: sample_service_eq)
  have b: "list_all is_white_space [0x0020, 0x000A, 0x3000]"
    by (simp add: is_white_space_def)
  from executeCode_blank_code [OF r b] r b show ?thesis by simp
qed


text \<open>
  Claim C1, amended. On a ready service, when the code is not blank and the adapter throws
  an Error during execution, that is a value other than \<open>null\<close> and \<open>undefined\<close> whose
  \<open>message\<close> is a string or is missing, \<open>executeCode\<close> does not let it reach the
  caller: it returns the failing result whose error text is \<open>formatError\<close> of that Error
  and whose execution time is \<open>Math.round\<close> of the difference of the two clock readings.
\<close>

theorem executeCode_adapter_throws:
  assumes "ready this" and "shelter this" and "\<not> list_all is_white_space code"
    and "engine_captureR P (calls w) code (Some (capture_opts this)) = Rejects err"
    and "err \<noteq> JNull" and "err \<noteq> JUndefined"
    and "get_prop err (ascii ''message'') = message_value e"
  shows "executeCode P this code w =
           (Returned \<lparr>success = False, output = None, error = Some (JStr (formatError e)),
                      images = None,
                      executionTime =
                        Some (Math_round P
                               (number_minus P (performance_clock P (Suc (ticks w)))
                                               (performance_clock P (ticks w))))\<rparr>,
            this\<lparr>currentExecution := False\<rparr>,
            \<lparr>ticks = ticks w + 2, calls = calls w @ [(code, Some (capture_opts this))]\<rparr>)"
  using assms by (rule executeCode_rejects_Error)

theorem executeCode_adapter_throws_witness:
  "ready (sample_service None) \<and> shelter (sample_service None)
   \<and> \<not> list_all is_white_space (ascii ''stop()'')
   \<and> engine_captureR sample_platform (calls sample_world) (ascii ''stop()'')
        (Some (capture_opts (sample_service None)))
       = Rejects (Error_object \<lparr>message = Some (ascii ''Error in f(): invalid argument'')\<rparr>)
   \<and> get_prop (Error_object \<lparr>message = Some (ascii ''Error in f(): invalid argument'')\<rparr>
                 :: int jsval) (ascii ''message'')
       = JStr (ascii ''Error in f(): invalid argument'')
   \<and> fst (executeCode sample_platform (sample_service None) (ascii ''stop()'') sample_world)
       = Returned \<lparr>success = False, output = None,
                   error = Some (JStr ([0x30A8, 0x30E9, 0x30FC] @ ascii '': f(): '' @
                                       [0x7121, 0x52B9, 0x306A] @ ascii '' argument'')),
                   images = None, executionTime = Some 13\<rparr>"
proof -
  let ?e = "\<lparr>message = Some (ascii ''Error in f(): invalid argument'')\<rparr>"
  have r: "ready (sample_service None)" and s: "shelter (sample_service None)"
    by (simp_all add: sample_service_eq)
  have c: "\<not> list_all is_white_space (ascii ''stop()'')"
    by (simp add: ascii_def is_white_space_def)
  have e: "engine_captureR sample_platform (calls sample_world) (ascii ''stop()'')
             (Some (capture_opts (sample_service None))) = Rejects (Error_object ?e)"
    by (simp add: sample_platform_def)
  have m: "get_prop (Error_object ?e :: int jsval) (ascii ''message'')
           = JStr (ascii ''Error in f(): invalid argument'')"
    by (simp add: Error_object_props message_value_def)
  from executeCode_adapter_throws
         [OF r s c e Error_object_props(1) Error_object_props(2) Error_object_props(3)]
  have "fst (executeCode sample_platform (sample_service None) (ascii ''stop()'') sample_world)
        = Returned \<lparr>success = False, output = None, error = Some (JStr (formatError ?e)),
            images = None,
            executionTime =
              Some (Math_round sample_platform
                     (number_minus sample_platform
                        (performance_clock sample_platform (Suc (ticks sample_world)))
                        (performance_clock sample_platform (ticks sample_world))))\<rparr>"
    by simp
  with r s c e m show ?thesis unfolding formatError_sample sample_duration by simp
qed

text \<open>
  The claim as it was stated fails when what the adapter throws is \<open>null\<close> (or
  \<open>undefined\<close>): \<open>formatError\<close> reads \<open>error.message\<close> inside the \<open>catch\<close> clause, the
  read throws a TypeError, and that error leaves \<open>executeCode\<close>.
\<close>

theorem executeCode_null_rejection:
  "ready (sample_service None) \<and> shelter (sample_service None)
   \<and> \<not> list_all is_white_space (ascii ''crash()'')
   \<and> engine_captureR sample_platform (calls sample_world) (ascii ''crash()'')
        (Some (capture_opts (sample_service None))) = Rejects JNull
   \<and> fst (executeCode sample_platform (sample_service None) (ascii ''crash()'') sample_world)
       = Threw \<lparr>message = Some (ascii ''Cannot read properties of null (reading '' @ [0x0027] @
                                 ascii ''message'' @ [0x0027] @ ascii '')'')\<rparr>"
proof -
  have r: "ready (sample_service None)" and s: "shelter (sample_service None)"
    by (simp_all add: sample_service_eq)
  have c: "\<not> list_all is_white_space (ascii ''crash()'')"
    by (simp add: ascii_def is_white_space_def)
  have e: "engine_captureR sample_platform (calls sample_world) (ascii ''crash()'')
             (Some (capture_opts (sample_service None))) = Rejects JNull"
    by (simp add: sample_platform_def ascii_def)
  have t: "property_read_error sample_platform JNull (ascii ''message'')
           = ascii ''Cannot read properties of null (reading '' @ [0x0027] @
             ascii ''message'' @ [0x0027] @ ascii '')''"
    by (simp add: sample_platform_def ascii_def)
  have "fst (executeCode sample_platform (sample_service None) (ascii ''crash()'') sample_world)
        = Threw \<lparr>message = Some (property_read_error sample_platform JNull (ascii ''message''))\<rparr>"
    by (simp add: executeCode_rejects [OF r s c e] formatError_caught_nullish)
  with r s c e show ?thesis unfolding t by simp
qed

lemma executeCode_returned_shape:
  assumes "executeCode P this code w = (Returned r, this', w')"
  shows "(output r \<noteq> None \<longleftrightarrow> success r)
       \<and> (error r \<noteq> None \<longleftrightarrow> \<not> success r)
       \<and> (\<not> success r \<longrightarrow> error r \<noteq> Some (JStr []) \<and> (\<exists>v. error r = Some v \<and> truthy P v))
       \<and> (images r \<noteq> None \<and> images r \<noteq> Some [] \<longrightarrow>
            success r
            \<and> (\<exists>res. engine_captureR P (calls w) code (Some (capture_opts this)) = Resolves res
                     \<and> raw_images res = images r))"
proof (cases "ready this")
  case False
  with assms show ?thesis by (simp add: executeCode_def)
next
  case True
  note ready = this
  show ?thesis
  proof (cases "list_all is_white_space code")
    case True
    from executeCode_blank [OF ready True, of P w] assms
    show ?thesis by (auto simp: no_code_message_def)
  next
    case False
    note nonblank = this
    show ?thesis
    proof (cases "shelter this")
      case False
      from executeCode_no_shelter [OF ready False nonblank, of P w] assms
      show ?thesis by (auto simp: formatError_nonempty)
    next
      case True
      show ?thesis
      proof (cases "engine_captureR P (calls w) code (Some (capture_opts this))")
        case (Resolves res)
        from executeCode_resolves [OF ready True nonblank Resolves] assms
        have r: "r = \<lparr>success = True,
                      output = Some (truncateOutput this (formatOutput P (raw_output res))),
                      error = None,
                      images = Some (case raw_images res of Some imgs \<Rightarrow> imgs | None \<Rightarrow> []),
                      executionTime =
                        Some (Math_round P
                               (number_minus P (performance_clock P (Suc (ticks w)))
                                               (performance_clock P (ticks w))))\<rparr>"
          by simp
        show ?thesis
          unfolding r using Resolves by (cases "raw_images res") auto
      next
        case (Rejects err)
        show ?thesis
        proof (cases "formatError_caught P err")
          case (Threw typeError)
          with executeCode_rejects [OF ready True nonblank Rejects] assms
          show ?thesis by simp
        next
          case (Returned x)
          from formatError_caught_truthy [OF Returned] have t: "truthy P x" .
          then have "x \<noteq> JStr []" by auto
          with Returned t executeCode_rejects [OF ready True nonblank Rejects] assms
          show ?thesis by auto
        qed
      qed
    qed
  qed
qed

text \<open>
  Claim C2. In every result that \<open>executeCode\<close> returns, the output is present exactly
  when \<open>success\<close> is true and the error exactly when it is false (and then it is
  truthy, so not the empty string). Images are present and non-empty only in a
  successful result, and then they are the images the adapter captured.
\<close>

theorem executeCode_result_invariant:
  assumes "executeCode P this code w = (Returned r, this', w')"
  shows "(output r \<noteq> None \<longleftrightarrow> success r)
       \<and> (error r \<noteq> None \<longleftrightarrow> \<not> success r)
       \<and> (\<not> success r \<longrightarrow> error r \<noteq> Some (JStr []) \<and> (\<exists>v. error r = Some v \<and> truthy P v))
       \<and> (images r \<noteq> None \<and> images r \<noteq> Some [] \<longrightarrow>
            success r
            \<and> (\<exists>res. engine_captureR P (calls w) code (Some (capture_opts this)) = Resolves res
                     \<and> raw_images res = images r))"
  using assms by (rule executeCode_returned_shape)

theorem executeCode_result_invariant_witness:
  "executeCode sample_platform (sample_service None) (ascii ''plot(1)'') sample_world
     = (Returned \<lparr>success = True, output = Some (ascii ''[1] 2''), error = None,
                   images = Some [7], executionTime = Some 13\<rparr>,
        sample_service None,
        \<lparr>ticks = 2,
         calls = [(setup_code, None),
                  (ascii ''plot(1)'', Some (capture_opts (sample_service None)))]\<rparr>)
   \<and> engine_captureR sample_platform (calls sample_world) (ascii ''plot(1)'')
        (Some (capture_opts (sample_service None)))
       = Resolves \<lparr>raw_output = Some [tagged ''stdout'' (ascii ''[1] 2'')], raw_images = Some [7]\<rparr>"
proof -
  have r: "ready (sample_service None)" and s: "shelter (sample_service None)"
    by (simp_all add: sample_service_eq)
  have c: "\<not> list_all is_white_space (ascii ''plot(1)'')"
    by (simp add: ascii_def is_white_space_def)
  have e: "engine_captureR sample_platform (calls sample_world) (ascii ''plot(1)'')
             (Some (capture_opts (sample_service None)))
           = Resolves \<lparr>raw_output = Some [tagged ''stdout'' (ascii ''[1] 2'')],
                        raw_images = Some [7]\<rparr>"
    by (simp add: sample_platform_def ascii_def)
  have f: "formatOutput sample_platform (Some [tagged ''stdout'' (ascii ''[1] 2'')]) = ascii ''[1] 2''"
    by (simp add: formatOutput_def formatItem_def tagged_def ascii_def)
  have x: "executeCode sample_platform (sample_service None) (ascii ''plot(1)'') sample_world
     = (Returned \<lparr>success = True, output = Some (ascii ''[1] 2''), error = None,
                   images = Some [7], executionTime = Some 13\<rparr>,
        sample_service None,
        \<lparr>ticks = 2,
         calls = [(setup_code, None),
                  (ascii ''plot(1)'', Some (capture_opts (sample_service None)))]\<rparr>)"
    by (simp add: executeCode_resolves [OF r s c e] f sample_duration)
       (simp add: sample_world_eq sample_service_eq truncateOutput_def ascii_def)
  from executeCode_result_invariant [OF x] e x show ?thesis by simp
qed

section \<open>Truncation\<close>

text \<open>
  Claim C3. An output longer than \<open>maxOutputLength\<close> is cut to that length and the
  omission suffix is appended, so the result has the maximum length plus the length of
  the suffix (24 code units) and ends with it; an output of at most the maximum length is
  returned as it is. The error of a failing result is the no-code message or what
  \<open>formatError\<close> returned for the caught error, whatever its length: it never passes
  through \<open>truncateOutput\<close>.
\<close>

theorem truncateOutput_spec:
  "(maxOutputLength (config this) < length out \<longrightarrow>
      length (truncateOutput this out) = maxOutputLength (config this) + length omission_suffix
      \<and> suffix omission_suffix (truncateOutput this out)
      \<and> truncateOutput this out = take (maxOutputLength (config this)) out @ omission_suffix)
   \<and> (length out \<le> maxOutputLength (config this) \<longrightarrow> truncateOutput this out = out)
   \<and> length omission_suffix = 24
   \<and> (executeCode P this code w = (Returned r, this', w') \<and> \<not> success r \<longrightarrow>
        error r = Some (JStr no_code_message)
        \<or> error r = Some (JStr (formatError
                      \<lparr>message = Some (property_read_error P JNull (ascii ''captureR''))\<rparr>))
        \<or> (\<exists>err x. engine_captureR P (calls w) code (Some (capture_opts this)) = Rejects err
                 \<and> formatError_caught P err = Returned x \<and> error r = Some x))"
proof -
  have "error r = Some (JStr no_code_message)
        \<or> error r = Some (JStr (formatError
                      \<lparr>message = Some (property_read_error P JNull (ascii ''captureR''))\<rparr>))
        \<or> (\<exists>err x. engine_captureR P (calls w) code (Some (capture_opts this)) = Rejects err
                 \<and> formatError_caught P err = Returned x \<and> error r = Some x)"
    if x: "executeCode P this code w = (Returned r, this', w')" and f: "\<not> success r"
  proof -
    from x have ready: "ready this" by (auto simp: executeCode_def split: if_splits)
    show ?thesis
    proof (cases "list_all is_white_space code")
      case True
      from executeCode_blank [OF ready True, of P w] x
      have "error r = Some (JStr no_code_message)" by auto
      then show ?thesis by blast
    next
      case False
      note nonblank = this
      show ?thesis
      proof (cases "shelter this")
        case False
        from executeCode_no_shelter [OF ready False nonblank, of P w] x
        have "error r = Some (JStr (formatError
                \<lparr>message = Some (property_read_error P JNull (ascii ''captureR''))\<rparr>))"
          by auto
        then show ?thesis by blast
      next
        case True
        show ?thesis
        proof (cases "engine_captureR P (calls w) code (Some (capture_opts this))")
          case (Resolves res)
          from executeCode_resolves [OF ready True nonblank Resolves] x
          have "success r" by auto
          with f show ?thesis by simp
        next
          case (Rejects err)
          show ?thesis
          proof (cases "formatError_caught P err")
            case (Threw typeError)
            with executeCode_rejects [OF ready True nonblank Rejects] x
            show ?thesis by simp
          next
            case (Returned y)
            with executeCode_rejects [OF ready True nonblank Rejects] x
            have "error r = Some y" by auto
            with Rejects Returned show ?thesis by blast
          qed
        qed
      qed
    qed
  qed
  then show ?thesis
    by (auto simp: truncateOutput_def omission_suffix_def ascii_def suffix_def)
qed

theorem truncateOutput_spec_witness:
  "maxOutputLength (config (sample_service (Some 5))) < length (ascii ''abcdefgh'')
   \<and> truncateOutput (sample_service (Some 5)) (ascii ''abcdefgh'') = ascii ''abcde'' @ omission_suffix
   \<and> length (truncateOutput (sample_service (Some 5)) (ascii ''abcdefgh'')) = 29
   \<and> length (ascii ''abcde'') \<le> maxOutputLength (config (sample_service (Some 5)))
   \<and> truncateOutput (sample_service (Some 5)) (ascii ''abcde'') = ascii ''abcde''
   \<and> executeCode sample_platform (sample_service (Some 5)) (ascii ''stop()'') sample_world
       = (Returned \<lparr>success = False, output = None,
                    error = Some (JStr ([0x30A8, 0x30E9, 0x30FC] @ ascii '': f(): '' @
                                        [0x7121, 0x52B9, 0x306A] @ ascii '' argument'')),
                    images = None, executionTime = Some 13\<rparr>,
          sample_service (Some 5),
          \<lparr>ticks = 2,
           calls = [(setup_code, None),
                    (ascii ''stop()'', Some (capture_opts (sample_service (Some 5))))]\<rparr>)
   \<and> (\<exists>err. engine_captureR sample_platform (calls sample_world) (ascii ''stop()'')
               (Some (capture_opts (sample_service (Some 5)))) = Rejects err
            \<and> formatError_caught sample_platform err
                = Returned (JStr ([0x30A8, 0x30E9, 0x30FC] @ ascii '': f(): '' @
                                  [0x7121, 0x52B9, 0x306A] @ ascii '' argument'')))"
proof -
  let ?svc = "sample_service (Some 5)"
  let ?e = "\<lparr>message = Some (ascii ''Error in f(): invalid argument'')\<rparr>"
  let ?msg = "[0x30A8, 0x30E9, 0x30FC] @ ascii '': f(): '' @ [0x7121, 0x52B9, 0x306A] @
               ascii '' argument''"
  let ?r = "\<lparr>success = False, output = None, error = Some (JStr ?msg), images = None,
             executionTime = Some (13 :: int)\<rparr>"
  have r: "ready ?svc" and s: "shelter ?svc"
    by (simp_all add: sample_service_eq)
  have c: "\<not> list_all is_white_space (ascii ''stop()'')"
    by (simp add: ascii_def is_white_space_def)
  have e: "engine_captureR sample_platform (calls sample_world) (ascii ''stop()'')
             (Some (capture_opts ?svc)) = Rejects (Error_object ?e)"
    by (simp add: sample_platform_def)
  have x: "executeCode sample_platform ?svc (ascii ''stop()'') sample_world
       = (Returned ?r, ?svc,
          \<lparr>ticks = 2,
           calls = [(setup_code, None), (ascii ''stop()'', Some (capture_opts ?svc))]\<rparr>)"
    by (simp add: executeCode_rejects_Error
                    [OF r s c e Error_object_props(1) Error_object_props(2) Error_object_props(3)]
                  formatError_sample sample_duration)
       (simp add: sample_world_eq sample_service_eq)
  have ns: "\<not> success ?r" by simp
  have ne: "?msg \<noteq> no_code_message"
    "?msg \<noteq> formatError \<lparr>message = Some (property_read_error sample_platform JNull
                                          (ascii ''captureR''))\<rparr>"
    by (simp_all add: no_code_message_def sample_platform_def formatError_def
          errorTranslations_def translate_step_def regex_test_def String_replace_def
          ascii_def canonicalize_def is_line_terminator_def)
  have l: "maxOutputLength (config ?svc) < length (ascii ''abcdefgh'')"
    by (simp add: sample_service_eq ascii_def)
  have m: "length (ascii ''abcde'') \<le> maxOutputLength (config ?svc)"
    by (simp add: sample_service_eq ascii_def)
  have k: "take (maxOutputLength (config ?svc)) (ascii ''abcdefgh'') = ascii ''abcde''"
    by (simp add: sample_service_eq ascii_def)
  note long = truncateOutput_spec [THEN conjunct1, rule_format]
  note short = truncateOutput_spec [THEN conjunct2, THEN conjunct1, rule_format]
  note failing = truncateOutput_spec [THEN conjunct2, THEN conjunct2, THEN conjunct2, rule_format]
  from long [OF l] k
  have a: "truncateOutput ?svc (ascii ''abcdefgh'') = ascii ''abcde'' @ omission_suffix"
    by simp
  from long [OF l]
  have a': "length (truncateOutput ?svc (ascii ''abcdefgh'')) = 29"
    by (simp add: sample_service_eq omission_suffix_def ascii_def)
  from short [OF m]
  have b: "truncateOutput ?svc (ascii ''abcde'') = ascii ''abcde''" .
  from failing [OF conjI [OF x ns]] ne
  have d: "\<exists>err. engine_captureR sample_platform (calls sample_world) (ascii ''stop()'')
                   (Some (capture_opts ?svc)) = Rejects err
                \<and> formatError_caught sample_platform err = Returned (JStr ?msg)"
    by auto
  from l m a a' b x d show ?thesis by blast
qed

section \<open>Normalising the captured output\<close>

text \<open>
  Claim C9. An empty nested array is rendered as the two characters \<open>[]\<close>: the length
  test comes before the tests for numbers and for strings, both of which an empty array
  passes.
\<close>

theorem formatArray_empty:
  "formatArray P [] = ascii ''[]''
   \<and> formatItem P (JArr []) = ascii ''[]''
   \<and> formatOutput P (Some [JArr []]) = ascii ''[]''
   \<and> length (formatArray P []) = 2
   \<and> list_all is_number ([] :: 'n jsval list) \<and> list_all is_string ([] :: 'n jsval list)"
  by (simp add: formatArray_def formatItem_def formatOutput_def ascii_def)

section \<open>Reading a variable: \<open>getVariable\<close>\<close>

text \<open>
  Claim C10. On a ready service \<open>getVariable\<close> never throws: it always returns a value.
  When the execution it starts throws, or returns a failure or an empty output, the
  value is \<open>null\<close>; when the output parses as JSON it is the parsed value, and otherwise
  it is the output string itself.
\<close>

theorem getVariable_never_throws:
  assumes "ready this"
  shows "(\<exists>v this' w'. getVariable P this variableName w = (Returned v, this', w'))
       \<and> (\<forall>e this' w'.
             executeCode P this
               (ascii ''jsonlite::toJSON('' @ variableName @ ascii '', auto_unbox = TRUE)'') w
               = (Threw e, this', w')
             \<longrightarrow> getVariable P this variableName w = (Returned JNull, this', w'))
       \<and> (\<forall>r this' w'.
             executeCode P this
               (ascii ''jsonlite::toJSON('' @ variableName @ ascii '', auto_unbox = TRUE)'') w
               = (Returned r, this', w')
             \<longrightarrow> (success r \<longleftrightarrow> output r \<noteq> None)
               \<and> (\<not> success r \<or> output r = Some [] \<longrightarrow>
                     getVariable P this variableName w = (Returned JNull, this', w'))
               \<and> (\<forall>out v. success r \<and> output r = Some out \<and> out \<noteq> []
                             \<and> JSON_parse P out = Some v \<longrightarrow>
                     getVariable P this variableName w = (Returned v, this', w'))
               \<and> (\<forall>out. success r \<and> output r = Some out \<and> out \<noteq> []
                           \<and> JSON_parse P out = None \<longrightarrow>
                     getVariable P this variableName w = (Returned (JStr out), this', w')))"
proof -
  let ?code = "ascii ''jsonlite::toJSON('' @ variableName @ ascii '', auto_unbox = TRUE)''"
  have thrown: "getVariable P this variableName w = (Returned JNull, this', w')"
    if "executeCode P this ?code w = (Threw e, this', w')" for e this' w'
    using that assms by (simp add: getVariable_def)
  have returned:
    "(success r \<longleftrightarrow> output r \<noteq> None)
     \<and> (\<not> success r \<or> output r = Some [] \<longrightarrow>
           getVariable P this variableName w = (Returned JNull, this', w'))
     \<and> (\<forall>out v. success r \<and> output r = Some out \<and> out \<noteq> [] \<and> JSON_parse P out = Some v \<longrightarrow>
           getVariable P this variableName w = (Returned v, this', w'))
     \<and> (\<forall>out. success r \<and> output r = Some out \<and> out \<noteq> [] \<and> JSON_parse P out = None \<longrightarrow>
           getVariable P this variableName w = (Returned (JStr out), this', w'))"
    if x: "executeCode P this ?code w = (Returned r, this', w')" for r this' w'
  proof -
    from executeCode_returned_shape [OF x] have o: "success r \<longleftrightarrow> output r \<noteq> None"
      by simp
    have 1: "getVariable P this variableName w = (Returned JNull, this', w')"
      if "\<not> success r \<or> output r = Some []"
      using that assms x o by (auto simp: getVariable_def split: option.splits)
    have 2: "getVariable P this variableName w = (Returned v, this', w')"
      if "success r \<and> output r = Some out \<and> out \<noteq> [] \<and> JSON_parse P out = Some v" for out v
      using that assms x by (simp add: getVariable_def)
    have 3: "getVariable P this variableName w = (Returned (JStr out), this', w')"
      if "success r \<and> output r = Some out \<and> out \<noteq> [] \<and> JSON_parse P out = None" for out
      using that assms x by (simp add: getVariable_def)
    from o 1 2 3 show ?thesis by blast
  qed
  have total: "\<exists>v this' w'. getVariable P this variableName w = (Returned v, this', w')"
  proof -
    obtain res this' w' where x: "executeCode P this ?code w = (res, this', w')"
      by (cases "executeCode P this ?code w") auto
    show ?thesis
    proof (cases res)
      case (Threw e)
      with x thrown show ?thesis by blast
    next
      case (Returned r)
      with x have y: "executeCode P this ?code w = (Returned r, this', w')" by simp
      from assms y show ?thesis
        by (auto simp: getVariable_def split: option.splits)
    qed
  qed
  from total thrown returned show ?thesis by blast
qed

theorem getVariable_never_throws_witness:
  "ready (sample_service None)
   \<and> fst (getVariable sample_platform (sample_service None) (ascii ''x'') sample_world)
       = Returned (JArr [JNum 1, JNum 2])
   \<and> fst (getVariable sample_platform (sample_service None) (ascii ''y'') sample_world)
       = Returned (JStr (ascii ''[1] 2''))
   \<and> fst (getVariable sample_platform (sample_service None) (ascii ''missing'') sample_world)
       = Returned JNull
   \<and> fst (getVariable sample_platform (sample_service None) (ascii ''nothing'') sample_world)
       = Returned JNull
   \<and> fst (getVariable sample_platform (sample_service None) (ascii ''broken'') sample_world)
       = Returned JNull"
proof -
  let ?svc = "sample_service None"
  let ?opts = "Some (capture_opts ?svc)"
  have r: "ready ?svc" and s: "shelter ?svc"
    by (simp_all add: sample_service_eq)
  have c: "\<not> list_all is_white_space (ascii ''jsonlite::toJSON('' @ n @ ascii '', auto_unbox = TRUE)'')" for n
    by (simp add: ascii_def is_white_space_def)
  have ex: "engine_captureR sample_platform (calls sample_world)
              (ascii ''jsonlite::toJSON('' @ ascii ''x'' @ ascii '', auto_unbox = TRUE)'') ?opts
            = Resolves \<lparr>raw_output = Some [tagged ''stdout'' (ascii ''[1,2]'')], raw_images = None\<rparr>"
    by (simp add: sample_platform_def ascii_def)
  have ey: "engine_captureR sample_platform (calls sample_world)
              (ascii ''jsonlite::toJSON('' @ ascii ''y'' @ ascii '', auto_unbox = TRUE)'') ?opts
            = Resolves \<lparr>raw_output = Some [tagged ''stdout'' (ascii ''[1] 2'')], raw_images = Some [7]\<rparr>"
    by (simp add: sample_platform_def ascii_def)
  have em: "engine_captureR sample_platform (calls sample_world)
              (ascii ''jsonlite::toJSON('' @ ascii ''missing'' @ ascii '', auto_unbox = TRUE)'') ?opts
            = Rejects (Error_object \<lparr>message = Some (ascii ''object missing not found'')\<rparr>)"
    by (simp add: sample_platform_def ascii_def)
  have en: "engine_captureR sample_platform (calls sample_world)
              (ascii ''jsonlite::toJSON('' @ ascii ''nothing'' @ ascii '', auto_unbox = TRUE)'') ?opts
            = Resolves \<lparr>raw_output = Some [], raw_images = None\<rparr>"
    by (simp add: sample_platform_def ascii_def)
  have eb: "engine_captureR sample_platform (calls sample_world)
              (ascii ''jsonlite::toJSON('' @ ascii ''broken'' @ ascii '', auto_unbox = TRUE)'') ?opts
            = Rejects JNull"
    by (simp add: sample_platform_def ascii_def)
  have f0: "truncateOutput ?svc (formatOutput sample_platform (Some [])) = []"
    by (simp add: formatOutput_def truncateOutput_def)
  have f: "formatOutput sample_platform (Some [tagged ''stdout'' t]) = t" if "t \<noteq> []" for t
    using that by (simp add: formatOutput_def formatItem_def tagged_def ascii_def)
  have tr: "truncateOutput ?svc (ascii ''[1,2]'') = ascii ''[1,2]''"
    "truncateOutput ?svc (ascii ''[1] 2'') = ascii ''[1] 2''"
    by (simp_all add: truncateOutput_def sample_service_eq ascii_def)
  have p: "JSON_parse sample_platform (ascii ''[1,2]'') = Some (JArr [JNum 1, JNum 2])"
    "JSON_parse sample_platform (ascii ''[1] 2'') = None"
    by (simp_all add: sample_platform_def ascii_def)
  have ne: "ascii ''[1,2]'' \<noteq> []" "ascii ''[1] 2'' \<noteq> []" by (simp_all add: ascii_def)
  note gv = getVariable_never_throws [OF r, of sample_platform _ sample_world]
  from gv [of "ascii ''x''"]
  have gx: "fst (getVariable sample_platform ?svc (ascii ''x'') sample_world)
            = Returned (JArr [JNum 1, JNum 2])"
    by (auto simp: executeCode_resolves [OF r s c ex] f ne tr p)
  from gv [of "ascii ''y''"]
  have gy: "fst (getVariable sample_platform ?svc (ascii ''y'') sample_world)
            = Returned (JStr (ascii ''[1] 2''))"
    by (auto simp: executeCode_resolves [OF r s c ey] f ne tr p)
  from gv [of "ascii ''missing''"]
  have gm: "fst (getVariable sample_platform ?svc (ascii ''missing'') sample_world)
            = Returned JNull"
    by (auto simp: executeCode_rejects_Error
                     [OF r s c em Error_object_props(1) Error_object_props(2)
                         Error_object_props(3)])
  from gv [of "ascii ''nothing''"]
  have gn: "fst (getVariable sample_platform ?svc (ascii ''nothing'') sample_world)
            = Returned JNull"
    by (auto simp: executeCode_resolves [OF r s c en] f0)
  from gv [of "ascii ''broken''"]
  have gb: "fst (getVariable sample_platform ?svc (ascii ''broken'') sample_world)
            = Returned JNull"
    by (auto simp: executeCode_rejects [OF r s c eb] formatError_caught_nullish)
  from r gx gy gm gn gb show ?thesis by simp
qed

section \<open>Translating error messages\<close>

text \<open>
  Claim C7. A failure carries a message when its \<open>message\<close> property is a non-empty
  string. Such a message that no pattern of the table matches is returned unchanged. When
  there is no message, the property being absent or the empty string, the fallback text
  is returned.
\<close>

theorem formatError_no_match:
  "(m \<noteq> [] \<and> (\<forall>e\<in>set errorTranslations. \<not> regex_test (RegExp (fst e)) m)
       \<longrightarrow> formatError \<lparr>message = Some m\<rparr> = m)
   \<and> formatError \<lparr>message = None\<rparr> = fallback_message
   \<and> formatError \<lparr>message = Some []\<rparr> = fallback_message"
  by (simp add: formatError_def fold_translate_identity)

theorem formatError_no_match_witness:
  "ascii ''stack overflow'' \<noteq> []
   \<and> \<not> (\<exists>e\<in>set errorTranslations. regex_test (RegExp (fst e)) (ascii ''stack overflow''))
   \<and> formatError \<lparr>message = Some (ascii ''stack overflow'')\<rparr> = ascii ''stack overflow''"
proof -
  have n: "ascii ''stack overflow'' \<noteq> []" by (simp add: ascii_def)
  have u: "\<forall>e\<in>set errorTranslations. \<not> regex_test (RegExp (fst e)) (ascii ''stack overflow'')"
    by (simp add: errorTranslations_def regex_test_def ascii_def canonicalize_def
          is_line_terminator_def)
  from formatError_no_match [of "ascii ''stack overflow''"] n u show ?thesis by blast
qed

section \<open>Lines of the normalised output\<close>

lemma formatItem_to_js:
  "has_text it \<Longrightarrow> formatItem P (to_js it) = normalized_line P it"
  by (cases it) (simp_all add: formatItem_def tagged_def ascii_def)

text \<open>
  Where every stdout, stderr, warning and message item carries a non-empty text,
  \<open>formatOutput\<close> gives one entry per item, in the order of the sequence, joined by
  newlines: stdout text and plain text verbatim, stderr, warning and message text after
  their labels. The empty sequence, and a missing one, give the empty text.
\<close>

lemma formatOutput_lines:
  assumes "list_all has_text items"
  shows "formatOutput P (Some (map to_js items)) = join [0x000A] (map (normalized_line P) items)
       \<and> length (map (normalized_line P) items) = length items
       \<and> formatOutput P (Some []) = []
       \<and> formatOutput P None = []"
proof -
  from assms have eq: "map (formatItem P) (map to_js items) = map (normalized_line P) items"
    by (simp add: list_all_iff formatItem_to_js)
  have "formatOutput P (Some (map to_js items))
        = join [0x000A] (map (formatItem P) (map to_js items))"
    by (cases items) (simp_all add: formatOutput_def)
  then have "formatOutput P (Some (map to_js items))
             = join [0x000A] (map (normalized_line P) items)"
    unfolding eq .
  then show ?thesis by (simp add: formatOutput_def)
qed

text \<open>
  Claim C5 says that every captured item gives one line, a stdout item its text
  verbatim. The code does not do that for a stdout item whose text is empty, which is
  what a blank line of output is: the test \<open>item.data\<close> is false for the empty string,
  so the item misses the stdout branch and is rendered by \<open>JSON.stringify\<close> as the
  four lines of the object. A blank line given as a plain string is kept as the empty
  line, and a stdout item with text is kept verbatim; between two such lines the blank
  one comes out as the serialised object.
\<close>

theorem formatOutput_blank_stdout:
  "formatOutput sample_platform (Some (map to_js [Stdout []])) = blank_stdout_json
   \<and> join [0x000A] (map (normalized_line sample_platform) [Stdout []]) = []
   \<and> blank_stdout_json \<noteq> []
   \<and> length (filter (\<lambda>c. c = 0x000A) blank_stdout_json) = 3
   \<and> formatOutput sample_platform (Some [JStr []]) = []
   \<and> formatOutput sample_platform
        (Some [tagged ''stdout'' (ascii ''a''), tagged ''stdout'' [], tagged ''stdout'' (ascii ''b'')])
       = ascii ''a'' @ [0x000A] @ blank_stdout_json @ [0x000A] @ ascii ''b''"
  by (simp add: formatOutput_def formatItem_def tagged_def sample_platform_def
        blank_stdout_json_def ascii_def)

section \<open>The first matching pattern\<close>

lemma table_no_empty_match: "\<forall>e\<in>set errorTranslations. \<not> regex_test (RegExp (fst e)) []"
  by (simp add: errorTranslations_def regex_test_def)

text \<open>
  Claim C4, amended. Let a raw message match at least one entry of the table, and take
  the first such entry. \<open>formatError\<close> replaces the leftmost case-insensitive match of
  its pattern by its translation and keeps the text before and after that match; the
  later entries are then applied in the same way to the text so obtained. The returned
  string contains the translation of the first matching entry, and when no later entry
  matches the message it is exactly the text before the match, the translation, and the
  text after the match. Only the leftmost match of a pattern is replaced, so nothing is
  said about further occurrences of the fragment.
\<close>

theorem formatError_first_match:
  assumes "i < length errorTranslations"
    and "errorTranslations ! i = (pattern, translation)"
    and "regex_test (RegExp pattern) m"
    and "\<forall>j<i. \<not> regex_test (RegExp (fst (errorTranslations ! j))) m"
  shows "\<exists>pre mid post.
           m = pre @ mid @ post
         \<and> match_here (RegExp pattern) (mid @ post) = Some (length mid)
         \<and> (\<forall>k<length pre. match_here (RegExp pattern) (drop k m) = None)
         \<and> formatError \<lparr>message = Some m\<rparr> =
             fold translate_step (drop (Suc i) errorTranslations) (pre @ translation @ post)
         \<and> sublist translation (formatError \<lparr>message = Some m\<rparr>)
         \<and> ((\<forall>j. i < j \<and> j < length errorTranslations
                  \<longrightarrow> \<not> regex_test (RegExp (fst (errorTranslations ! j))) m)
              \<longrightarrow> formatError \<lparr>message = Some m\<rparr> = pre @ translation @ post)"
proof -
  let ?tbl = errorTranslations
  let ?later = "drop (Suc i) ?tbl"
  from assms(1,2) have "(pattern, translation) \<in> set ?tbl" by (metis nth_mem)
  with table_no_empty_match assms(3) have nonempty: "m \<noteq> []" by fastforce
  from assms(3) obtain pre mid post where s: "m = pre @ mid @ post"
    and mh: "match_here (RegExp pattern) (mid @ post) = Some (length mid)"
    and left: "\<forall>k<length pre. match_here (RegExp pattern) (drop k m) = None"
    and rep: "String_replace m (RegExp pattern) translation = pre @ translation @ post"
    by (rule String_replace_decomp)
  have split: "?tbl = take i ?tbl @ (pattern, translation) # ?later"
    using assms(1,2) by (metis id_take_nth_drop)
  have "\<forall>e\<in>set (take i ?tbl). \<not> regex_test (RegExp (fst e)) m"
  proof
    fix e assume "e \<in> set (take i ?tbl)"
    then obtain j where "j < i" "e = ?tbl ! j"
      using assms(1) by (auto simp: in_set_conv_nth)
    with assms(4) show "\<not> regex_test (RegExp (fst e)) m" by simp
  qed
  then have before: "fold translate_step (take i ?tbl) m = m"
    by (rule fold_translate_identity)
  have "fold translate_step ?tbl m =
          fold translate_step ?later
            (translate_step (pattern, translation) (fold translate_step (take i ?tbl) m))"
    by (subst split) simp
  with before assms(3) rep nonempty
  have res: "formatError \<lparr>message = Some m\<rparr>
             = fold translate_step ?later (pre @ translation @ post)"
    by (simp add: formatError_def translate_step_eq)
  have "set ?later \<subseteq> set (tl ?tbl)"
    by (simp add: drop_Suc set_drop_subset)
  with table_literal have lit: "\<forall>e\<in>set ?later. literal_entry e" by blast
  from table_foreign assms(1,2) have ft: "foreign_text translation"
    by (metis nth_mem snd_conv)
  from fold_translate_keeps [OF lit ft] res
  have sub: "sublist translation (formatError \<lparr>message = Some m\<rparr>)"
    by (auto simp: sublist_def)
  have only: "formatError \<lparr>message = Some m\<rparr> = pre @ translation @ post"
    if none: "\<forall>j. i < j \<and> j < length ?tbl \<longrightarrow> \<not> regex_test (RegExp (fst (?tbl ! j))) m"
  proof -
    have "\<forall>e\<in>set ?later. \<not> regex_test (RegExp (fst e)) (pre @ translation @ post)"
    proof
      fix e assume e: "e \<in> set ?later"
      then obtain k where k: "k < length ?later" "e = ?later ! k"
        by (auto simp: in_set_conv_nth)
      then have "e = ?tbl ! (Suc i + k)" "Suc i + k < length ?tbl" by auto
      with none have "\<not> regex_test (RegExp (fst e)) m" by simp
      moreover from lit e have "literal_entry e" by blast
      ultimately show "\<not> regex_test (RegExp (fst e)) (pre @ translation @ post)"
        using literal_no_new_match [OF _ ft, of e pre post mid] s by blast
    qed
    then have "fold translate_step ?later (pre @ translation @ post) = pre @ translation @ post"
      by (rule fold_translate_identity)
    with res show ?thesis by simp
  qed
  from s mh left res sub only show ?thesis by blast
qed

theorem formatError_first_match_witness:
  "2 < length errorTranslations
   \<and> errorTranslations ! 2 = (''Error in'', [0x30A8, 0x30E9, 0x30FC, 0x003A])
   \<and> regex_test (RegExp ''Error in'') (ascii ''stop: error in f()'')
   \<and> \<not> (\<exists>j<2. regex_test (RegExp (fst (errorTranslations ! j))) (ascii ''stop: error in f()''))
   \<and> \<not> (\<exists>j. 2 < j \<and> j < length errorTranslations
            \<and> regex_test (RegExp (fst (errorTranslations ! j))) (ascii ''stop: error in f()''))
   \<and> sublist [0x30A8, 0x30E9, 0x30FC, 0x003A]
        (formatError \<lparr>message = Some (ascii ''stop: error in f()'')\<rparr>)
   \<and> (\<exists>pre mid post. ascii ''stop: error in f()'' = pre @ mid @ post
         \<and> formatError \<lparr>message = Some (ascii ''stop: error in f()'')\<rparr>
             = pre @ [0x30A8, 0x30E9, 0x30FC, 0x003A] @ post)
   \<and> formatError \<lparr>message = Some (ascii ''stop: error in f()'')\<rparr>
       = ascii ''stop: '' @ [0x30A8, 0x30E9, 0x30FC, 0x003A] @ ascii '' f()''"
proof -
  let ?m = "ascii ''stop: error in f()''"
  have h1: "2 < length errorTranslations" by (simp add: errorTranslations_def)
  have h2: "errorTranslations ! 2 = (''Error in'', [0x30A8, 0x30E9, 0x30FC, 0x003A])"
    by (simp add: errorTranslations_def)
  have h3: "regex_test (RegExp ''Error in'') ?m"
    by (simp add: regex_test_def ascii_def canonicalize_def)
  have all: "\<forall>e\<in>set errorTranslations. fst e \<noteq> ''Error in'' \<longrightarrow> \<not> regex_test (RegExp (fst e)) ?m"
    by (simp add: errorTranslations_def regex_test_def ascii_def canonicalize_def
          is_line_terminator_def)
  have names: "fst (errorTranslations ! j) \<noteq> ''Error in''" if "j < length errorTranslations" "j \<noteq> 2" for j
    using that by (auto simp: errorTranslations_def less_Suc_eq eval_nat_numeral)
  have other: "\<not> regex_test (RegExp (fst (errorTranslations ! j))) ?m"
    if "j < length errorTranslations" "j \<noteq> 2" for j
    using all names [OF that] nth_mem [OF that(1)] by blast
  from other h1 have h4: "\<forall>j<2. \<not> regex_test (RegExp (fst (errorTranslations ! j))) ?m"
    by auto
  from other have h5: "\<forall>j. 2 < j \<and> j < length errorTranslations
          \<longrightarrow> \<not> regex_test (RegExp (fst (errorTranslations ! j))) ?m"
    by auto
  have v: "formatError \<lparr>message = Some ?m\<rparr>
           = ascii ''stop: '' @ [0x30A8, 0x30E9, 0x30FC, 0x003A] @ ascii '' f()''"
    by (simp add: formatError_def errorTranslations_def translate_step_def regex_test_def
          String_replace_def ascii_def canonicalize_def is_line_terminator_def)
  from formatError_first_match [OF h1 h2 h3 h4] h5
  have "sublist [0x30A8, 0x30E9, 0x30FC, 0x003A] (formatError \<lparr>message = Some ?m\<rparr>)
        \<and> (\<exists>pre mid post. ?m = pre @ mid @ post
             \<and> formatError \<lparr>message = Some ?m\<rparr> = pre @ [0x30A8, 0x30E9, 0x30FC, 0x003A] @ post)"
    by blast
  with h1 h2 h3 h4 h5 v show ?thesis by blast
qed

text \<open>
  The claim as it was stated fails where the fragment occurs twice: only the first
  occurrence is replaced, and the returned string still matches the pattern.
\<close>

theorem formatError_repeated_fragment:
  "regex_test (RegExp ''invalid'') (ascii ''invalid invalid'')
   \<and> formatError \<lparr>message = Some (ascii ''invalid invalid'')\<rparr>
       = [0x7121, 0x52B9, 0x306A] @ ascii '' invalid''
   \<and> regex_test (RegExp ''invalid'') (formatError \<lparr>message = Some (ascii ''invalid invalid'')\<rparr>)"
  by (simp add: formatError_def errorTranslations_def translate_step_def regex_test_def
        String_replace_def ascii_def canonicalize_def is_line_terminator_def)

end
